theory Spec2Isabelle
  imports Complex_Main "HOL-Library.Multiset" "HOL-Library.Sublist" "HOL-Library.AList"
begin

section \<open>Tabular crawl exports\<close>

text \<open>
  A crawl export is read by \<open>pandas.read_csv\<close> into a DataFrame. A cell is a missing value
  (\<open>NaN\<close>, an empty CSV field), a number or a text. A row maps a column name to its cell; a name
  that is not a column of the frame is never read, because every column access goes through
  \<open>getitem\<close> or \<open>dropna\<close>, which raise \<open>KeyError\<close> first. The field \<open>numeric\<close> lists the
  columns whose dtype is numeric (int64 or float64, fixed when the file is parsed and kept by
  row selection); the remaining columns have dtype object.
\<close>

datatype cell = NaN | Num rat | Str string

record dataframe =
  columns :: "string list"
  numeric :: "string list"
  rows :: "(string \<Rightarrow> cell) list"

datatype error = KeyError string | TypeError | AttributeError | OSError
  | ZeroDivisionError | ValueError | UnicodeEncodeError

definition and_then :: "error + 'a \<Rightarrow> ('a \<Rightarrow> error + 'b) \<Rightarrow> error + 'b" where
  "and_then m f = (case m of Inl e \<Rightarrow> Inl e | Inr x \<Rightarrow> f x)"

text \<open>\<open>df[c]\<close>: the column as a list of cells in file order, \<open>KeyError\<close> when absent.\<close>

definition getitem :: "dataframe \<Rightarrow> string \<Rightarrow> error + cell list" where
  "getitem df c =
     (if c \<in> set (columns df) then Inr (map (\<lambda>r. r c) (rows df)) else Inl (KeyError c))"

text \<open>\<open>df[mask]\<close>: the rows whose mask entry is true, in file order.\<close>

definition select :: "dataframe \<Rightarrow> bool list \<Rightarrow> dataframe" where
  "select df flags = df\<lparr>rows := map fst (filter snd (zip (rows df) flags))\<rparr>"

text \<open>\<open>df.empty\<close>: true when either axis has length zero.\<close>

definition empty :: "dataframe \<Rightarrow> bool" where
  "empty df = (rows df = [] \<or> columns df = [])"

definition is_str :: "cell \<Rightarrow> bool" where
  "is_str c = (case c of Str _ \<Rightarrow> True | _ \<Rightarrow> False)"

text \<open>
  Comparisons of a column with a number are element-wise; a missing value compares false and
  a text cell makes the comparison raise \<open>TypeError\<close>.
\<close>

definition between :: "rat \<Rightarrow> rat \<Rightarrow> cell list \<Rightarrow> error + bool list" where
  "between lo hi col =
     (if \<exists>c \<in> set col. is_str c then Inl TypeError
      else Inr (map (\<lambda>c. case c of Num x \<Rightarrow> lo \<le> x \<and> x \<le> hi | _ \<Rightarrow> False) col))"

definition gt :: "cell list \<Rightarrow> rat \<Rightarrow> error + bool list" where
  "gt col bound =
     (if \<exists>c \<in> set col. is_str c then Inl TypeError
      else Inr (map (\<lambda>c. case c of Num x \<Rightarrow> bound < x | _ \<Rightarrow> False) col))"

definition isna :: "cell list \<Rightarrow> bool list" where
  "isna col = map (\<lambda>c. c = NaN) col"

text \<open>\<open>df.dropna(subset=[c])\<close>: the rows whose cell in column \<open>c\<close> is present.\<close>

definition dropna :: "dataframe \<Rightarrow> string \<Rightarrow> error + dataframe" where
  "dropna df c =
     (if c \<in> set (columns df) then Inr (df\<lparr>rows := filter (\<lambda>r. r c \<noteq> NaN) (rows df)\<rparr>)
      else Inl (KeyError c))"

text \<open>
  \<open>df[c].str.len() > n\<close>: the \<open>.str\<close> accessor raises \<open>AttributeError\<close> on a column of
  numeric dtype; otherwise the length of a cell that is not a text is \<open>NaN\<close>, which compares
  false.
\<close>

definition str_len_gt :: "dataframe \<Rightarrow> string \<Rightarrow> nat \<Rightarrow> error + bool list" where
  "str_len_gt df c n =
     and_then (getitem df c) (\<lambda>col.
       if c \<in> set (numeric df) then Inl AttributeError
       else Inr (map (\<lambda>x. case x of Str s \<Rightarrow> n < length s | _ \<Rightarrow> False) col))"

text \<open>
  Python's \<open>sorted(xs, key=key, reverse=True)\<close>: CPython reverses the list, sorts it stably
  in ascending key order and reverses the result, so that equal keys keep their original
  order. The insertion sort \<open>sort_key\<close> stands for the stable ascending sort.
\<close>

definition sorted_reverse :: "('a \<Rightarrow> 'k::linorder) \<Rightarrow> 'a list \<Rightarrow> 'a list" where
  "sorted_reverse key xs = rev (sort_key key (rev xs))"

text \<open>The distinct values of a list in order of first appearance.\<close>

definition uniq :: "'a list \<Rightarrow> 'a list" where
  "uniq xs = rev (remdups (rev xs))"

text \<open>
  \<open>Series.value_counts()\<close>: missing values are dropped, each distinct value is paired with its
  number of occurrences, and the pairs are put in descending order of the count. Values with
  equal counts are kept in order of first appearance; pandas leaves the order of such ties to
  its sorting routine, and what is proved below of the duplicated titles as a set and of
  their number does not depend on it.
\<close>

definition value_counts :: "cell list \<Rightarrow> (cell \<times> nat) list" where
  "value_counts col =
     (let vals = filter (\<lambda>c. c \<noteq> NaN) col
      in sorted_reverse snd (map (\<lambda>k. (k, count_list vals k)) (uniq vals)))"

section \<open>Rule catalog and issue records\<close>

datatype issue_type =
    broken_links | server_errors | redirect_chains | duplicate_titles
  | missing_meta_descriptions | missing_h1 | duplicate_content | slow_pages
  | title_too_long | description_too_long | low_word_count | missing_alt_text
  | multiple_h1 | missing_meta_keywords | excessive_outlinks | low_text_html_ratio

datatype category = Critical | High | Medium | Low

text \<open>\<open>ISSUE_SCORES\<close>: impact, effort and category of each issue identifier.\<close>

fun ISSUE_SCORES :: "issue_type \<Rightarrow> int \<times> int \<times> category" where
  "ISSUE_SCORES broken_links = (10, 5, Critical)"
| "ISSUE_SCORES server_errors = (10, 6, Critical)"
| "ISSUE_SCORES redirect_chains = (9, 4, Critical)"
| "ISSUE_SCORES duplicate_titles = (8, 3, Critical)"
| "ISSUE_SCORES missing_meta_descriptions = (7, 2, High)"
| "ISSUE_SCORES missing_h1 = (7, 2, High)"
| "ISSUE_SCORES duplicate_content = (8, 6, High)"
| "ISSUE_SCORES slow_pages = (7, 7, High)"
| "ISSUE_SCORES title_too_long = (5, 2, Medium)"
| "ISSUE_SCORES description_too_long = (5, 2, Medium)"
| "ISSUE_SCORES low_word_count = (6, 5, Medium)"
| "ISSUE_SCORES missing_alt_text = (5, 4, Medium)"
| "ISSUE_SCORES multiple_h1 = (3, 2, Low)"
| "ISSUE_SCORES missing_meta_keywords = (2, 1, Low)"
| "ISSUE_SCORES excessive_outlinks = (3, 4, Low)"
| "ISSUE_SCORES low_text_html_ratio = (3, 5, Low)"

definition score_impact :: "issue_type \<Rightarrow> int" where
  "score_impact t = fst (ISSUE_SCORES t)"

definition score_effort :: "issue_type \<Rightarrow> int" where
  "score_effort t = fst (snd (ISSUE_SCORES t))"

text \<open>
  The issue dictionary. \<open>priority_score\<close> is the quotient of two catalog integers; Python
  computes the floating-point number nearest to it, which is modelled by the exact rational.
  Rounding is monotone and the quotients of the catalog that differ are far apart, so the
  floating-point scores are ordered, and equal, exactly as the rationals are.
\<close>

record issue =
  itype :: issue_type
  title :: string
  description :: string
  count :: nat
  examples :: "cell list"
  impact :: int
  effort :: int
  priority_score :: rat
  recommendation :: string

text \<open>Python's \<open>/\<close> on two integers: \<open>ZeroDivisionError\<close> for a zero divisor.\<close>

definition truediv :: "int \<Rightarrow> int \<Rightarrow> error + rat" where
  "truediv a b = (if b = 0 then Inl ZeroDivisionError else Inr (of_int a / of_int b))"

text \<open>
  The dictionary literal of a check; its entries are evaluated in order, the quotient after
  the count and the examples.
\<close>

definition new_issue ::
  "issue_type \<Rightarrow> string \<Rightarrow> string \<Rightarrow> nat \<Rightarrow> cell list \<Rightarrow> string \<Rightarrow> error + issue" where
  "new_issue t ttl descr n ex reco =
     and_then (truediv (score_impact t) (score_effort t)) (\<lambda>quotient.
       Inr \<lparr>itype = t, title = ttl, description = descr, count = n, examples = ex,
            impact = score_impact t, effort = score_effort t,
            priority_score = quotient, recommendation = reco\<rparr>)"

text \<open>
  The tail shared by the checks: when the selection \<open>matched\<close> is not empty, one record with
  the number of matching rows and the \<open>Address\<close> cells of the first five of them.
\<close>

definition report ::
  "issue_type \<Rightarrow> string \<Rightarrow> string \<Rightarrow> string \<Rightarrow> dataframe \<Rightarrow> error + issue list" where
  "report t ttl descr reco matched =
     (if empty matched then Inr []
      else and_then (getitem matched ''Address'') (\<lambda>addr.
           and_then (new_issue t ttl descr (length (rows matched)) (take 5 addr) reco) (\<lambda>issue.
             Inr [issue])))"

section \<open>Issue detector\<close>

text \<open>
  The state of a \<open>SEOAuditAutomation\<close> instance: the matched export files, the loaded tables,
  the four severity buckets and the summary (unset until the first analysis).
\<close>

record summary =
  total_issues :: nat
  critical_count :: nat
  high_count :: nat
  medium_count :: nat
  low_count :: nat
  date :: string
  highest_impact_issues :: "issue list"

record audit =
  export_dir :: string
  files :: "(string \<times> string) list"
  data :: "string \<rightharpoonup> dataframe"
  critical :: "issue list"
  high :: "issue list"
  medium :: "issue list"
  low :: "issue list"
  summary :: "summary option"

definition init :: "string \<Rightarrow> audit" where
  "init dir = \<lparr>export_dir = dir, files = [], data = Map.empty,
               critical = [], high = [], medium = [], low = [], summary = None\<rparr>"

text \<open>
  Each check is given in two steps: the records it creates from the loaded tables (none when
  its table is absent), and the method that appends them to a bucket. An exception raised
  by a check leaves the method without a result (\<open>Inl\<close>).
\<close>

definition broken_links_records :: "(string \<rightharpoonup> dataframe) \<Rightarrow> error + issue list" where
  "broken_links_records d =
     (case d ''response_codes'' of None \<Rightarrow> Inr []
      | Some df \<Rightarrow>
          and_then (getitem df ''Status Code'') (\<lambda>sc.
          and_then (between 400 499 sc) (\<lambda>m4.
          and_then (report broken_links ''Broken Links (4xx)''
                      ''Pages returning client error status codes''
                      ''Fix or redirect broken links to maintain user experience and link equity''
                      (select df m4)) (\<lambda>r4.
          and_then (getitem df ''Status Code'') (\<lambda>sc'.
          and_then (between 500 599 sc') (\<lambda>m5.
          and_then (report server_errors ''Server Errors (5xx)''
                      ''Pages returning server error status codes''
                      ''Investigate server issues and fix the root cause to ensure page availability''
                      (select df m5)) (\<lambda>r5.
          Inr (r4 @ r5))))))))"

definition redirect_chains_records :: "(string \<rightharpoonup> dataframe) \<Rightarrow> error + issue list" where
  "redirect_chains_records d =
     (case d ''redirect_chains'' of None \<Rightarrow> Inr []
      | Some df \<Rightarrow>
          if ''Redirect Chain'' \<in> set (columns df) then
            and_then (getitem df ''Redirect Chain'') (\<lambda>rc.
            and_then (gt rc 1) (\<lambda>m.
            report redirect_chains ''Redirect Chains''
              ''URLs with multiple redirects in sequence''
              ''Reduce redirect chains to a single redirect to improve page speed and reduce crawl budget waste''
              (select df m)))
          else Inr [])"

text \<open>
  The duplicated titles: the values of \<open>value_counts\<close> whose count exceeds one, in its order.
\<close>

definition duplicated :: "cell list \<Rightarrow> cell list" where
  "duplicated col = map fst (filter (\<lambda>kc. 1 < snd kc) (value_counts col))"

text \<open>
  The examples of the duplicate-title record: the first two addresses of each of the first
  five duplicated titles. The \<open>Address\<close> column is read once per title.
\<close>

fun title_examples :: "dataframe \<Rightarrow> cell list \<Rightarrow> error + cell list" where
  "title_examples df [] = Inr []"
| "title_examples df (t # ts) =
     and_then (getitem (select df (map (\<lambda>r. r ''Title 1'' = t) (rows df))) ''Address'') (\<lambda>addr.
     and_then (title_examples df ts) (\<lambda>rest.
     Inr (take 2 addr @ rest)))"

definition duplicate_titles_records :: "(string \<rightharpoonup> dataframe) \<Rightarrow> error + issue list" where
  "duplicate_titles_records d =
     (case d ''page_titles'' of None \<Rightarrow> Inr []
      | Some df0 \<Rightarrow>
          and_then (dropna df0 ''Title 1'') (\<lambda>df.
          and_then (getitem df ''Title 1'') (\<lambda>col.
          let duplicate_titles = duplicated col in
          if duplicate_titles \<noteq> [] then
            and_then (title_examples df (take 5 duplicate_titles)) (\<lambda>ex.
            and_then (new_issue issue_type.duplicate_titles ''Duplicate Page Titles''
                        ''Multiple pages using the same title''
                        (length duplicate_titles) (take 5 ex)
                        ''Create unique page titles to improve SEO and user experience'')
              (\<lambda>issue. Inr [issue]))
          else Inr [])))"

definition missing_meta_descriptions_records ::
  "(string \<rightharpoonup> dataframe) \<Rightarrow> error + issue list" where
  "missing_meta_descriptions_records d =
     (case d ''meta_description'' of None \<Rightarrow> Inr []
      | Some df \<Rightarrow>
          and_then (getitem df ''Meta Description 1'') (\<lambda>col.
          report missing_meta_descriptions ''Missing Meta Descriptions''
            ''Pages without meta descriptions''
            ''Add compelling meta descriptions to improve click-through rates from search results''
            (select df (isna col))))"

definition missing_h1_records :: "(string \<rightharpoonup> dataframe) \<Rightarrow> error + issue list" where
  "missing_h1_records d =
     (case d ''h1'' of None \<Rightarrow> Inr []
      | Some df \<Rightarrow>
          and_then (getitem df ''H1-1'') (\<lambda>col.
          report missing_h1 ''Missing H1 Tags''
            ''Pages without H1 headings''
            ''Add H1 tags to all pages to improve content hierarchy and relevance signals''
            (select df (isna col))))"

definition slow_pages_records :: "(string \<rightharpoonup> dataframe) \<Rightarrow> error + issue list" where
  "slow_pages_records d =
     (case d ''page_speed'' of None \<Rightarrow> Inr []
      | Some df \<Rightarrow>
          if ''Page Load Time (Seconds)'' \<in> set (columns df) then
            and_then (getitem df ''Page Load Time (Seconds)'') (\<lambda>col.
            and_then (gt col 3) (\<lambda>m.
            report slow_pages ''Slow-Loading Pages''
              ''Pages with load time greater than 3.0 seconds''
              ''Optimize page speed by reducing file sizes, implementing caching, and minimizing render-blocking resources''
              (select df m)))
          else Inr [])"

definition title_length_records :: "(string \<rightharpoonup> dataframe) \<Rightarrow> error + issue list" where
  "title_length_records d =
     (case d ''page_titles'' of None \<Rightarrow> Inr []
      | Some df0 \<Rightarrow>
          and_then (dropna df0 ''Title 1'') (\<lambda>df.
          and_then (str_len_gt df ''Title 1'' 60) (\<lambda>m.
          report title_too_long ''Page Titles Too Long''
            ''Page titles longer than 60 characters''
            ''Shorten page titles to under 60 characters to avoid truncation in search results''
            (select df m))))"

definition description_length_records :: "(string \<rightharpoonup> dataframe) \<Rightarrow> error + issue list" where
  "description_length_records d =
     (case d ''meta_description'' of None \<Rightarrow> Inr []
      | Some df0 \<Rightarrow>
          and_then (dropna df0 ''Meta Description 1'') (\<lambda>df.
          and_then (str_len_gt df ''Meta Description 1'' 160) (\<lambda>m.
          report description_too_long ''Meta Descriptions Too Long''
            ''Meta descriptions longer than 160 characters''
            ''Shorten meta descriptions to under 160 characters to avoid truncation in search results''
            (select df m))))"

definition missing_alt_text_records :: "(string \<rightharpoonup> dataframe) \<Rightarrow> error + issue list" where
  "missing_alt_text_records d =
     (case d ''images'' of None \<Rightarrow> Inr []
      | Some df \<Rightarrow>
          and_then (getitem df ''Alt Text'') (\<lambda>col.
          report missing_alt_text ''Images Missing Alt Text''
            ''Images without alternative text''
            ''Add descriptive alt text to all images to improve accessibility and image search visibility''
            (select df (isna col))))"

definition multiple_h1_records :: "(string \<rightharpoonup> dataframe) \<Rightarrow> error + issue list" where
  "multiple_h1_records d =
     (case d ''h1'' of None \<Rightarrow> Inr []
      | Some df \<Rightarrow>
          if ''H1-2'' \<in> set (columns df) then
            and_then (dropna df ''H1-2'') (\<lambda>multiple.
            report multiple_h1 ''Multiple H1 Tags''
              ''Pages with more than one H1 heading''
              ''Use a single H1 tag per page to maintain clear content hierarchy''
              multiple)
          else Inr [])"

definition to_critical :: "audit \<Rightarrow> issue list \<Rightarrow> error + audit" where
  "to_critical s rs = Inr (s\<lparr>critical := critical s @ rs\<rparr>)"

definition to_high :: "audit \<Rightarrow> issue list \<Rightarrow> error + audit" where
  "to_high s rs = Inr (s\<lparr>high := high s @ rs\<rparr>)"

definition to_medium :: "audit \<Rightarrow> issue list \<Rightarrow> error + audit" where
  "to_medium s rs = Inr (s\<lparr>medium := medium s @ rs\<rparr>)"

definition to_low :: "audit \<Rightarrow> issue list \<Rightarrow> error + audit" where
  "to_low s rs = Inr (s\<lparr>low := low s @ rs\<rparr>)"

definition analyze_broken_links :: "audit \<Rightarrow> error + audit" where
  "analyze_broken_links s = and_then (broken_links_records (data s)) (to_critical s)"

definition analyze_redirect_chains :: "audit \<Rightarrow> error + audit" where
  "analyze_redirect_chains s = and_then (redirect_chains_records (data s)) (to_critical s)"

definition analyze_duplicate_titles :: "audit \<Rightarrow> error + audit" where
  "analyze_duplicate_titles s = and_then (duplicate_titles_records (data s)) (to_critical s)"

definition analyze_missing_meta_descriptions :: "audit \<Rightarrow> error + audit" where
  "analyze_missing_meta_descriptions s =
     and_then (missing_meta_descriptions_records (data s)) (to_high s)"

definition analyze_missing_h1 :: "audit \<Rightarrow> error + audit" where
  "analyze_missing_h1 s = and_then (missing_h1_records (data s)) (to_high s)"

definition analyze_slow_pages :: "audit \<Rightarrow> error + audit" where
  "analyze_slow_pages s = and_then (slow_pages_records (data s)) (to_high s)"

definition analyze_title_length :: "audit \<Rightarrow> error + audit" where
  "analyze_title_length s = and_then (title_length_records (data s)) (to_medium s)"

definition analyze_description_length :: "audit \<Rightarrow> error + audit" where
  "analyze_description_length s =
     and_then (description_length_records (data s)) (to_medium s)"

definition analyze_missing_alt_text :: "audit \<Rightarrow> error + audit" where
  "analyze_missing_alt_text s = and_then (missing_alt_text_records (data s)) (to_medium s)"

definition analyze_multiple_h1 :: "audit \<Rightarrow> error + audit" where
  "analyze_multiple_h1 s = and_then (multiple_h1_records (data s)) (to_low s)"

section \<open>Aggregator\<close>

text \<open>The ten method calls that open \<open>run_analysis\<close>, in the order of the source.\<close>

definition detect :: "audit \<Rightarrow> error + audit" where
  "detect s =
     and_then (analyze_broken_links s) (\<lambda>s.
     and_then (analyze_redirect_chains s) (\<lambda>s.
     and_then (analyze_duplicate_titles s) (\<lambda>s.
     and_then (analyze_missing_meta_descriptions s) (\<lambda>s.
     and_then (analyze_missing_h1 s) (\<lambda>s.
     and_then (analyze_slow_pages s) (\<lambda>s.
     and_then (analyze_title_length s) (\<lambda>s.
     and_then (analyze_description_length s) (\<lambda>s.
     and_then (analyze_missing_alt_text s) (\<lambda>s.
     analyze_multiple_h1 s)))))))))"

definition sort_buckets :: "audit \<Rightarrow> audit" where
  "sort_buckets s =
     s\<lparr>critical := sorted_reverse priority_score (critical s),
       high := sorted_reverse priority_score (high s),
       medium := sorted_reverse priority_score (medium s),
       low := sorted_reverse priority_score (low s)\<rparr>"

definition get_highest_impact_issues :: "audit \<Rightarrow> nat \<Rightarrow> issue list" where
  "get_highest_impact_issues s n =
     (let all_issues = critical s @ high s @ medium s @ low s;
          sorted_issues = sorted_reverse impact all_issues
      in take n sorted_issues)"

text \<open>\<open>today\<close> is the date string that \<open>datetime.now()\<close> yields.\<close>

definition summarise :: "string \<Rightarrow> audit \<Rightarrow> audit" where
  "summarise today s =
     s\<lparr>summary := Some
        \<lparr>total_issues = sum_list (map length [critical s, high s, medium s, low s]),
         critical_count = length (critical s),
         high_count = length (high s),
         medium_count = length (medium s),
         low_count = length (low s),
         date = today,
         highest_impact_issues = get_highest_impact_issues s 3\<rparr>\<rparr>"

definition run_analysis :: "string \<Rightarrow> audit \<Rightarrow> error + audit" where
  "run_analysis today s = and_then (detect s) (\<lambda>s. Inr (summarise today (sort_buckets s)))"

section \<open>Export loader\<close>


datatype message = Loading string string | ErrorLoading string | ErrorLoadingFiles error









text \<open>
  The handler of the enclosing \<open>try\<close>: it prints the exception and returns \<open>False\<close>; an
  exception raised by this last \<open>print\<close> reaches the caller.
\<close>

definition give_up :: "(message \<Rightarrow> error option) \<Rightarrow> error \<Rightarrow> error + bool" where
  "give_up print e =
     (case print (ErrorLoadingFiles e) of None \<Rightarrow> Inr False | Some e' \<Rightarrow> Inl e')"


section \<open>Spreadsheet report\<close>

record excel_row =
  issue_type_col :: string
  url_col :: cell
  impact_col :: int
  effort_col :: int
  priority_score_col :: rat
  recommendation_col :: string

datatype sheet = SummarySheet "(string \<times> cell) list" | IssueSheet "excel_row list"

definition issue_data :: "issue list \<Rightarrow> excel_row list" where
  "issue_data bucket =
     concat (map (\<lambda>issue.
       map (\<lambda>example.
         \<lparr>issue_type_col = title issue, url_col = example, impact_col = impact issue,
          effort_col = effort issue, priority_score_col = priority_score issue,
          recommendation_col = recommendation issue\<rparr>) (examples issue)) bucket)"

definition category_sheet :: "string \<Rightarrow> issue list \<Rightarrow> (string \<times> sheet) list" where
  "category_sheet name bucket =
     (if bucket \<noteq> [] then
        (if issue_data bucket \<noteq> [] then [(name, IssueSheet (issue_data bucket))] else [])
      else [])"

text \<open>
  The workbook as the list of its sheets in the order they are written. The report read back
  from the JSON file is the summary and the four buckets of the instance; a missing summary
  key raises \<open>KeyError\<close>.
\<close>

definition generate_excel_report :: "string \<Rightarrow> audit \<Rightarrow> error + (string \<times> sheet) list" where
  "generate_excel_report domain s =
     (case summary s of
        None \<Rightarrow> Inl (KeyError ''date'')
      | Some sm \<Rightarrow>
          Inr ([(''Summary'', SummarySheet
                  [(''Domain'', Str domain),
                   (''Audit Date'', Str (date sm)),
                   (''Total Issues'', Num (of_nat (total_issues sm))),
                   (''Critical Issues'', Num (of_nat (critical_count sm))),
                   (''High Priority Issues'', Num (of_nat (high_count sm))),
                   (''Medium Priority Issues'', Num (of_nat (medium_count sm))),
                   (''Low Priority Issues'', Num (of_nat (low_count sm)))])]
               @ category_sheet ''Critical'' (critical s)
               @ category_sheet ''High'' (high s)
               @ category_sheet ''Medium'' (medium s)
               @ category_sheet ''Low'' (low s)))"

section \<open>Crawl driver: waiting on the HTTP API\<close>

datatype json = JNull | JBool bool | JNum rat | JStr string | JArr "json list"
  | JObj "(string \<times> json) list"

text \<open>
  What one GET request meets: a transport error (\<open>requests\<close> raises a \<open>RequestException\<close>) or a
  response with a status code and a body; the body is \<open>None\<close> when it is not valid JSON
  (\<open>response.json()\<close> then raises the \<open>JSONDecodeError\<close> of \<open>requests\<close>, itself a
  \<open>RequestException\<close>).
\<close>

datatype reply = RequestException | Response nat "json option"

text \<open>\<open>_make_request\<close> for a GET: the decoded body, or \<open>JNull\<close> for Python's \<open>None\<close>.\<close>

definition make_request :: "reply \<Rightarrow> json" where
  "make_request r =
     (case r of
        RequestException \<Rightarrow> JNull
      | Response code body \<Rightarrow>
          if code = 200 then (case body of Some j \<Rightarrow> j | None \<Rightarrow> JNull) else JNull)"

definition get_crawl_status :: "reply \<Rightarrow> json" where
  "get_crawl_status r = make_request r"

text \<open>Python's truth value of a decoded JSON value.\<close>

definition truthy :: "json \<Rightarrow> bool" where
  "truthy j =
     (case j of JNull \<Rightarrow> False | JBool b \<Rightarrow> b | JNum x \<Rightarrow> x \<noteq> 0 | JStr s \<Rightarrow> s \<noteq> []
      | JArr xs \<Rightarrow> xs \<noteq> [] | JObj kvs \<Rightarrow> kvs \<noteq> [])"

definition dict_get :: "(string \<times> json) list \<Rightarrow> string \<Rightarrow> json \<Rightarrow> json" where
  "dict_get kvs k dflt = (case map_of kvs k of Some v \<Rightarrow> v | None \<Rightarrow> dflt)"

text \<open>
  The polling loop. Time is explicit: \<open>elapsed\<close> is the clock reading minus \<open>start_time\<close> at
  the top of an iteration. Each event gives the reply to the next status request and the
  time that passes, beyond \<open>check_interval\<close>, until the next clock reading (the duration of
  the request and of any oversleeping). \<open>time.sleep\<close> raises \<open>ValueError\<close> for a negative
  interval. \<open>polls\<close> counts the status requests made. The result is \<open>None\<close> when the events
  run out with the loop still polling.
\<close>

fun wait_loop ::
  "rat \<Rightarrow> rat \<Rightarrow> rat \<Rightarrow> nat \<Rightarrow> (reply \<times> rat) list \<Rightarrow> ((error + bool) \<times> nat) option" where
  "wait_loop check_interval timeout elapsed polls [] =
     (if elapsed > timeout then Some (Inr False, polls) else None)"
| "wait_loop check_interval timeout elapsed polls ((r, extra) # events) =
     (if elapsed > timeout then Some (Inr False, polls)
      else
        let status = get_crawl_status r in
        if \<not> truthy status then Some (Inr False, Suc polls)
        else
          (case status of
             JObj kvs \<Rightarrow>
               (let crawl_status = dict_get kvs ''status'' (JStr '''') in
                if crawl_status = JStr ''FINISHED'' then Some (Inr True, Suc polls)
                else if crawl_status \<in> set [JStr ''FAILED'', JStr ''STOPPED'', JStr ''INTERRUPTED'']
                then Some (Inr False, Suc polls)
                else if check_interval < 0 then Some (Inl ValueError, Suc polls)
                else wait_loop check_interval timeout
                       (elapsed + extra + check_interval) (Suc polls) events)
           | _ \<Rightarrow> Some (Inl AttributeError, Suc polls)))"

text \<open>
  \<open>startup\<close> is the time between the reading of \<open>start_time\<close> and the first clock reading
  of the loop.
\<close>

definition wait_for_crawl_completion ::
  "rat \<Rightarrow> rat \<Rightarrow> rat \<Rightarrow> (reply \<times> rat) list \<Rightarrow> ((error + bool) \<times> nat) option" where
  "wait_for_crawl_completion check_interval timeout startup events =
     wait_loop check_interval timeout startup 0 events"

section \<open>Properties named by the specification\<close>

text \<open>
  A list \<open>ys\<close> is \<open>xs\<close> stably sorted in descending order of \<open>key\<close>: the keys never increase
  along \<open>ys\<close>, and for each key value the elements with that key are those of \<open>xs\<close>, in the
  order they have in \<open>xs\<close>.
\<close>

definition stable_descending :: "('a \<Rightarrow> 'k::linorder) \<Rightarrow> 'a list \<Rightarrow> 'a list \<Rightarrow> bool" where
  "stable_descending key xs ys \<longleftrightarrow>
     sorted_wrt (\<lambda>a b. key b \<le> key a) ys \<and>
     (\<forall>k. filter (\<lambda>x. key x = k) ys = filter (\<lambda>x. key x = k) xs)"

text \<open>The condition of each check on a row, and the table it reads, as the specification lists them.\<close>

fun matches :: "issue_type \<Rightarrow> (string \<Rightarrow> cell) \<Rightarrow> bool" where
  "matches broken_links row =
     (case row ''Status Code'' of Num x \<Rightarrow> 400 \<le> x \<and> x \<le> 499 | _ \<Rightarrow> False)"
| "matches server_errors row =
     (case row ''Status Code'' of Num x \<Rightarrow> 500 \<le> x \<and> x \<le> 599 | _ \<Rightarrow> False)"
| "matches redirect_chains row =
     (case row ''Redirect Chain'' of Num x \<Rightarrow> 1 < x | _ \<Rightarrow> False)"
| "matches missing_meta_descriptions row = (row ''Meta Description 1'' = NaN)"
| "matches missing_h1 row = (row ''H1-1'' = NaN)"
| "matches slow_pages row =
     (case row ''Page Load Time (Seconds)'' of Num x \<Rightarrow> 3 < x | _ \<Rightarrow> False)"
| "matches title_too_long row =
     (case row ''Title 1'' of Str t \<Rightarrow> 60 < length t | _ \<Rightarrow> False)"
| "matches description_too_long row =
     (case row ''Meta Description 1'' of Str t \<Rightarrow> 160 < length t | _ \<Rightarrow> False)"
| "matches missing_alt_text row = (row ''Alt Text'' = NaN)"
| "matches multiple_h1 row = (row ''H1-2'' \<noteq> NaN)"
| "matches _ row = False"

fun source_table :: "issue_type \<Rightarrow> string" where
  "source_table broken_links = ''response_codes''"
| "source_table server_errors = ''response_codes''"
| "source_table redirect_chains = ''redirect_chains''"
| "source_table duplicate_titles = ''page_titles''"
| "source_table missing_meta_descriptions = ''meta_description''"
| "source_table missing_h1 = ''h1''"
| "source_table slow_pages = ''page_speed''"
| "source_table title_too_long = ''page_titles''"
| "source_table description_too_long = ''meta_description''"
| "source_table missing_alt_text = ''images''"
| "source_table multiple_h1 = ''h1''"
| "source_table _ = []"

text \<open>
  The record a check is to create for its issue type: the scores are those of the catalog
  and the priority score is their quotient.
\<close>

definition made_issue ::
  "issue_type \<Rightarrow> string \<Rightarrow> string \<Rightarrow> nat \<Rightarrow> cell list \<Rightarrow> string \<Rightarrow> issue" where
  "made_issue t ttl descr n ex reco =
     \<lparr>itype = t, title = ttl, description = descr, count = n, examples = ex,
      impact = fst (ISSUE_SCORES t), effort = fst (snd (ISSUE_SCORES t)),
      priority_score = of_int (fst (ISSUE_SCORES t)) / of_int (fst (snd (ISSUE_SCORES t))),
      recommendation = reco\<rparr>"

text \<open>
  What the specification says of the examples of a record: for the checks other than the
  duplicate-title check, the count is the number of matching rows of the source table and the
  examples are the \<open>Address\<close> cells of the first five of them in file order.
\<close>

definition first_five_examples :: "(string \<rightharpoonup> dataframe) \<Rightarrow> issue \<Rightarrow> bool" where
  "first_five_examples d r =
     (case d (source_table (itype r)) of
        None \<Rightarrow> False
      | Some df \<Rightarrow>
          count r = length (filter (matches (itype r)) (rows df)) \<and>
          examples r = map (\<lambda>row. row ''Address'') (take 5 (filter (matches (itype r)) (rows df))))"

text \<open>
  For the duplicate-title check: the count is the number of duplicated titles, and the
  examples are up to two addresses for each of the first five duplicated titles, concatenated
  and cut to five.
\<close>

definition sampled_title_examples :: "(string \<rightharpoonup> dataframe) \<Rightarrow> issue \<Rightarrow> bool" where
  "sampled_title_examples d r =
     (case d ''page_titles'' of
        None \<Rightarrow> False
      | Some df \<Rightarrow>
          (let dups = duplicated (map (\<lambda>row. row ''Title 1'') (rows df))
           in count r = length dups \<and>
              examples r =
                take 5 (concat (map (\<lambda>t. take 2 (map (\<lambda>row. row ''Address'')
                                            (filter (\<lambda>row. row ''Title 1'' = t) (rows df))))
                                   (take 5 dups)))))"

text \<open>
  The invariants of a created record: a positive count, at most five examples, and the scores
  of the catalog, each between 1 and 10, with their quotient.
\<close>

definition sound_record :: "issue \<Rightarrow> bool" where
  "sound_record r \<longleftrightarrow>
     1 \<le> count r \<and> length (examples r) \<le> 5 \<and>
     impact r = fst (ISSUE_SCORES (itype r)) \<and> effort r = fst (snd (ISSUE_SCORES (itype r))) \<and>
     1 \<le> impact r \<and> impact r \<le> 10 \<and> 1 \<le> effort r \<and> effort r \<le> 10 \<and>
     priority_score r * of_int (effort r) = of_int (impact r) \<and>
     priority_score r = of_int (impact r) / of_int (effort r)"

text \<open>The titles that remain once the rows without a title are dropped.\<close>

definition remaining_titles :: "dataframe \<Rightarrow> cell list" where
  "remaining_titles df = filter (\<lambda>c. c \<noteq> NaN) (map (\<lambda>row. row ''Title 1'') (rows df))"

text \<open>
  How the specification reads the reply to one status request: the crawl has finished, it has
  failed (\<open>FAILED\<close>, \<open>STOPPED\<close> or \<open>INTERRUPTED\<close>), there is no status (a transport error, a
  response other than 200, a body that is not JSON or is a false value), the crawl is still
  pending (any other status value of a JSON object), or the body is a true value that is not
  a JSON object.
\<close>

datatype verdict = Finished | Failed | NoStatus | Pending | Malformed

definition poll :: "reply \<Rightarrow> verdict" where
  "poll r =
     (case r of
        RequestException \<Rightarrow> NoStatus
      | Response code body \<Rightarrow>
          if code \<noteq> 200 then NoStatus
          else
            (case body of
               None \<Rightarrow> NoStatus
             | Some (JObj kvs) \<Rightarrow>
                 if kvs = [] then NoStatus
                 else
                   (case map_of kvs ''status'' of
                      Some (JStr st) \<Rightarrow>
                        if st = ''FINISHED'' then Finished
                        else if st \<in> {''FAILED'', ''STOPPED'', ''INTERRUPTED''} then Failed
                        else Pending
                    | _ \<Rightarrow> Pending)
             | Some j \<Rightarrow> if truthy j then Malformed else NoStatus))"

definition outcome :: "verdict \<Rightarrow> error + bool" where
  "outcome v = (case v of Finished \<Rightarrow> Inr True | Malformed \<Rightarrow> Inl AttributeError | _ \<Rightarrow> Inr False)"

text \<open>
  The time that passes between the first clock reading of the loop and the reading before
  the \<open>k\<close>-th status request, counting from 0.
\<close>

definition elapsed_before :: "rat \<Rightarrow> (reply \<times> rat) list \<Rightarrow> nat \<Rightarrow> rat" where
  "elapsed_before check_interval events k =
     sum_list (map (\<lambda>e. snd e + check_interval) (take k events))"

section \<open>Example inputs\<close>

text \<open>A parsed CSV row: the listed fields, every other field missing.\<close>

definition row_of :: "(string \<times> cell) list \<Rightarrow> string \<Rightarrow> cell" where
  "row_of kvs c = (case map_of kvs c of Some v \<Rightarrow> v | None \<Rightarrow> NaN)"

definition example_codes :: dataframe where
  "example_codes =
     \<lparr>columns = [''Address'', ''Status Code''], numeric = [''Status Code''],
      rows = [row_of [(''Address'', Str ''/a''), (''Status Code'', Num 200)],
              row_of [(''Address'', Str ''/b''), (''Status Code'', Num 404)],
              row_of [(''Address'', Str ''/c''), (''Status Code'', Num 500)],
              row_of [(''Address'', Str ''/d''), (''Status Code'', Num 301)],
              row_of [(''Address'', Str ''/e''), (''Status Code'', Num 404)]]\<rparr>"

definition example_titles :: dataframe where
  "example_titles =
     \<lparr>columns = [''Address'', ''Title 1''], numeric = [],
      rows = [row_of [(''Address'', Str ''/a''), (''Title 1'', Str ''Home'')],
              row_of [(''Address'', Str ''/b''), (''Title 1'', Str ''About'')],
              row_of [(''Address'', Str ''/c''), (''Title 1'', Str ''Home'')],
              row_of [(''Address'', Str ''/d'')]]\<rparr>"

definition example_meta :: dataframe where
  "example_meta =
     \<lparr>columns = [''Address'', ''Meta Description 1''], numeric = [],
      rows = [row_of [(''Address'', Str ''/a''), (''Meta Description 1'', Str ''Welcome'')],
              row_of [(''Address'', Str ''/b'')]]\<rparr>"

definition example_h1 :: dataframe where
  "example_h1 =
     \<lparr>columns = [''Address'', ''H1-1'', ''H1-2''], numeric = [],
      rows = [row_of [(''Address'', Str ''/a''), (''H1-1'', Str ''Home''), (''H1-2'', Str ''Again'')],
              row_of [(''Address'', Str ''/b'')]]\<rparr>"

definition example_data :: "string \<rightharpoonup> dataframe" where
  "example_data =
     map_of [(''response_codes'', example_codes), (''page_titles'', example_titles),
             (''meta_description'', example_meta), (''h1'', example_h1)]"

definition example_audit :: audit where
  "example_audit = (init ''exports'')\<lparr>data := example_data\<rparr>"

text \<open>Tables that hold nothing but the \<open>Address\<close> column.\<close>

definition address_only :: dataframe where
  "address_only =
     \<lparr>columns = [''Address''], numeric = [], rows = [row_of [(''Address'', Str ''/a'')]]\<rparr>"

definition address_only_audit :: audit where
  "address_only_audit = (init ''exports'')\<lparr>data := (\<lambda>key. Some address_only)\<rparr>"

definition example_broken_links_issue :: issue where
  "example_broken_links_issue =
     \<lparr>itype = broken_links, title = ''Broken Links (4xx)'',
      description = ''Pages returning client error status codes'',
      count = 2, examples = [Str ''/b'', Str ''/e''],
      impact = 10, effort = 5, priority_score = 2,
      recommendation =
        ''Fix or redirect broken links to maintain user experience and link equity''\<rparr>"

definition example_server_errors_issue :: issue where
  "example_server_errors_issue =
     \<lparr>itype = server_errors, title = ''Server Errors (5xx)'',
      description = ''Pages returning server error status codes'',
      count = 1, examples = [Str ''/c''],
      impact = 10, effort = 6, priority_score = 5 / 3,
      recommendation =
        ''Investigate server issues and fix the root cause to ensure page availability''\<rparr>"

definition example_duplicate_titles_issue :: issue where
  "example_duplicate_titles_issue =
     \<lparr>itype = duplicate_titles, title = ''Duplicate Page Titles'',
      description = ''Multiple pages using the same title'',
      count = 1, examples = [Str ''/a'', Str ''/c''],
      impact = 8, effort = 3, priority_score = 8 / 3,
      recommendation =
        ''Create unique page titles to improve SEO and user experience''\<rparr>"

text \<open>A critical issue with three examples, and an instance that reports it.\<close>

definition example_three_issue :: issue where
  "example_three_issue =
     \<lparr>itype = broken_links, title = ''Broken Links (4xx)'',
      description = ''Pages returning client error status codes'',
      count = 3, examples = [Str ''/a'', Str ''/b'', Str ''/c''],
      impact = 10, effort = 5, priority_score = 2,
      recommendation =
        ''Fix or redirect broken links to maintain user experience and link equity''\<rparr>"

definition example_reported :: audit where
  "example_reported =
     summarise ''2024-01-01'' ((init ''exports'')\<lparr>critical := [example_three_issue]\<rparr>)"






text \<open>Replies of the status endpoint, each arriving without delay.\<close>

definition status_reply :: "string \<Rightarrow> reply \<times> rat" where
  "status_reply st = (Response 200 (Some (JObj [(''status'', JStr st), (''urlsCrawled'', JNum 7)])), 0)"

definition example_crawl :: "(reply \<times> rat) list" where
  "example_crawl = [status_reply ''STARTED'', status_reply ''STARTED'', status_reply ''FINISHED'']"

definition example_failed_crawl :: "(reply \<times> rat) list" where
  "example_failed_crawl = [status_reply ''STARTED'', status_reply ''STOPPED'']"

definition example_stalled_crawl :: "(reply \<times> rat) list" where
  "example_stalled_crawl = [status_reply ''STARTED'', status_reply ''STARTED'', status_reply ''STARTED'']"

definition example_array_reply :: "(reply \<times> rat) list" where
  "example_array_reply = [(Response 200 (Some (JArr [JNum 1])), 0)]"

section \<open>Facts about the model\<close>

lemma and_then_Inl [simp]: "and_then (Inl e) f = Inl e"
  by (simp add: and_then_def)

lemma and_then_Inr [simp]: "and_then (Inr x) f = f x"
  by (simp add: and_then_def)

lemma and_then_eq_Inr: "and_then m f = Inr y \<longleftrightarrow> (\<exists>x. m = Inr x \<and> f x = Inr y)"
  by (cases m) simp_all

lemmas records_defs =
  broken_links_records_def redirect_chains_records_def duplicate_titles_records_def
  missing_meta_descriptions_records_def missing_h1_records_def slow_pages_records_def
  title_length_records_def description_length_records_def missing_alt_text_records_def
  multiple_h1_records_def

lemmas analyze_defs =
  analyze_broken_links_def analyze_redirect_chains_def analyze_duplicate_titles_def
  analyze_missing_meta_descriptions_def analyze_missing_h1_def analyze_slow_pages_def
  analyze_title_length_def analyze_description_length_def analyze_missing_alt_text_def
  analyze_multiple_h1_def

lemmas to_defs = to_critical_def to_high_def to_medium_def to_low_def

subsection \<open>Sorting\<close>

lemma mset_sorted_reverse [simp]: "mset (sorted_reverse key xs) = mset xs"
  by (simp add: sorted_reverse_def)

lemma set_sorted_reverse [simp]: "set (sorted_reverse key xs) = set xs"
  by (simp add: sorted_reverse_def)

lemma length_sorted_reverse [simp]: "length (sorted_reverse key xs) = length xs"
  by (simp add: sorted_reverse_def)

lemma sorted_reverse_descending: "sorted_wrt (\<lambda>a b. key b \<le> key a) (sorted_reverse key xs)"
proof -
  have "sorted (map key (sort_key key (rev xs)))"
    by (rule sorted_sort_key)
  then have "sorted_wrt (\<lambda>a b. key a \<le> key b) (sort_key key (rev xs))"
    by (simp add: sorted_wrt_map)
  then show ?thesis
    by (simp add: sorted_reverse_def sorted_wrt_rev)
qed

lemma sorted_reverse_stable:
  "filter (\<lambda>x. key x = k) (sorted_reverse key xs) = filter (\<lambda>x. key x = k) xs"
proof -
  have "filter (\<lambda>x. key x = k) (sorted_reverse key xs)
          = rev (filter (\<lambda>x. key x = k) (sort_key key (rev xs)))"
    by (simp add: sorted_reverse_def rev_filter)
  also have "\<dots> = rev (filter (\<lambda>x. key x = k) (rev xs))"
    by (simp only: sort_key_stable)
  also have "\<dots> = filter (\<lambda>x. key x = k) xs"
    by (simp add: rev_filter)
  finally show ?thesis .
qed

lemma stable_descending_sorted_reverse: "stable_descending key xs (sorted_reverse key xs)"
  by (simp add: stable_descending_def sorted_reverse_descending sorted_reverse_stable)

subsection \<open>The run of the checks\<close>

lemma detect_Inr:
  "detect s = Inr m \<longleftrightarrow>
     (\<exists>bl rc dt mm mh sp tl dl ma m1.
        broken_links_records (data s) = Inr bl \<and>
        redirect_chains_records (data s) = Inr rc \<and>
        duplicate_titles_records (data s) = Inr dt \<and>
        missing_meta_descriptions_records (data s) = Inr mm \<and>
        missing_h1_records (data s) = Inr mh \<and>
        slow_pages_records (data s) = Inr sp \<and>
        title_length_records (data s) = Inr tl \<and>
        description_length_records (data s) = Inr dl \<and>
        missing_alt_text_records (data s) = Inr ma \<and>
        multiple_h1_records (data s) = Inr m1 \<and>
        m = s\<lparr>critical := critical s @ bl @ rc @ dt,
              high := high s @ mm @ mh @ sp,
              medium := medium s @ tl @ dl @ ma,
              low := low s @ m1\<rparr>)"
  by (auto simp: detect_def analyze_defs to_defs and_then_eq_Inr)

subsection \<open>Row selection\<close>

lemma zip_map_filter: "map fst (filter snd (zip xs (map P xs))) = filter P xs"
  by (induction xs) simp_all

lemma rows_select_map:
  "rows (select df (map f (map (\<lambda>r. r c) (rows df)))) = filter (\<lambda>r. f (r c)) (rows df)"
proof -
  have "map f (map (\<lambda>r. r c) (rows df)) = map (\<lambda>r. f (r c)) (rows df)"
    by simp
  then have "select df (map f (map (\<lambda>r. r c) (rows df)))
               = df\<lparr>rows := filter (\<lambda>r. f (r c)) (rows df)\<rparr>"
    by (simp only: select_def zip_map_filter)
  then show ?thesis
    by simp
qed

lemma rows_select_rowwise:
  "rows (select df (map P (rows df))) = filter P (rows df)"
  by (simp add: select_def zip_map_filter)

lemma columns_select [simp]: "columns (select df flags) = columns df"
  by (simp add: select_def)

lemma getitem_Inr:
  "getitem df c = Inr col \<longleftrightarrow> c \<in> set (columns df) \<and> col = map (\<lambda>r. r c) (rows df)"
  by (auto simp: getitem_def)

lemma dropna_Inr:
  "dropna df c = Inr df' \<longleftrightarrow>
     c \<in> set (columns df) \<and> df' = df\<lparr>rows := filter (\<lambda>r. r c \<noteq> NaN) (rows df)\<rparr>"
  by (auto simp: dropna_def)

lemma between_Inr:
  "between lo hi (map (\<lambda>r. r c) rs) = Inr m \<Longrightarrow>
     m = map (\<lambda>c. case c of Num x \<Rightarrow> lo \<le> x \<and> x \<le> hi | _ \<Rightarrow> False) (map (\<lambda>r. r c) rs)"
  by (auto simp: between_def split: if_splits)

lemma gt_Inr:
  "gt (map (\<lambda>r. r c) rs) b = Inr m \<Longrightarrow>
     m = map (\<lambda>c. case c of Num x \<Rightarrow> b < x | _ \<Rightarrow> False) (map (\<lambda>r. r c) rs)"
  by (auto simp: gt_def split: if_splits)

lemma str_len_gt_Inr:
  "str_len_gt df c n = Inr m \<Longrightarrow>
     m = map (\<lambda>x. case x of Str s \<Rightarrow> n < length s | _ \<Rightarrow> False) (map (\<lambda>r. r c) (rows df))"
  by (auto simp: str_len_gt_def and_then_eq_Inr getitem_Inr split: if_splits)

subsection \<open>Created records\<close>

lemma catalog_range:
  "1 \<le> fst (ISSUE_SCORES t) \<and> fst (ISSUE_SCORES t) \<le> 10 \<and>
   1 \<le> fst (snd (ISSUE_SCORES t)) \<and> fst (snd (ISSUE_SCORES t)) \<le> 10"
  by (cases t) simp_all

lemma new_issue_Inr [simp]:
  "new_issue t ttl descr n ex reco = Inr (made_issue t ttl descr n ex reco)"
  using catalog_range [of t]
  by (simp add: new_issue_def truediv_def made_issue_def score_impact_def score_effort_def)

lemma sound_made_issue:
  "1 \<le> n \<Longrightarrow> length ex \<le> 5 \<Longrightarrow> sound_record (made_issue t ttl descr n ex reco)"
  using catalog_range [of t] by (simp add: sound_record_def made_issue_def)

lemma report_record:
  assumes "report t ttl descr reco m = Inr rs" and "r \<in> set rs"
  shows "rs = [r] \<and> itype r = t \<and> sound_record r \<and> count r = length (rows m) \<and>
         examples r = map (\<lambda>row. row ''Address'') (take 5 (rows m))"
proof -
  from assms have nonempty: "rows m \<noteq> []"
    and r: "r = made_issue t ttl descr (length (rows m))
                  (take 5 (map (\<lambda>row. row ''Address'') (rows m))) reco"
    and rs: "rs = [r]"
    by (auto simp: report_def empty_def and_then_eq_Inr getitem_Inr split: if_splits)
  from nonempty have "sound_record r"
    unfolding r by (intro sound_made_issue) (simp_all add: Suc_le_eq)
  with rs show ?thesis
    by (simp add: r made_issue_def take_map)
qed

lemma report_length: "report t ttl descr reco m = Inr rs \<Longrightarrow> length rs \<le> 1"
  by (auto simp: report_def and_then_eq_Inr split: if_splits)

lemma report_itypes: "report t ttl descr reco m = Inr rs \<Longrightarrow> subseq (map itype rs) [t]"
  by (auto simp: report_def and_then_eq_Inr made_issue_def split: if_splits)

lemma report_first_five:
  assumes "report t ttl descr reco m = Inr rs" and "r \<in> set rs"
    and "d (source_table t) = Some df" and "rows m = filter (matches t) (rows df)"
  shows "itype r = t \<and> sound_record r \<and> first_five_examples d r"
  using report_record [OF assms(1,2)] assms(3,4)
  by (simp add: first_five_examples_def)

lemma matches_funs:
  "matches broken_links =
     (\<lambda>row. case row ''Status Code'' of Num x \<Rightarrow> 400 \<le> x \<and> x \<le> 499 | _ \<Rightarrow> False)"
  "matches server_errors =
     (\<lambda>row. case row ''Status Code'' of Num x \<Rightarrow> 500 \<le> x \<and> x \<le> 599 | _ \<Rightarrow> False)"
  "matches redirect_chains =
     (\<lambda>row. case row ''Redirect Chain'' of Num x \<Rightarrow> 1 < x | _ \<Rightarrow> False)"
  "matches missing_meta_descriptions = (\<lambda>row. row ''Meta Description 1'' = NaN)"
  "matches missing_h1 = (\<lambda>row. row ''H1-1'' = NaN)"
  "matches slow_pages =
     (\<lambda>row. case row ''Page Load Time (Seconds)'' of Num x \<Rightarrow> 3 < x | _ \<Rightarrow> False)"
  "matches title_too_long =
     (\<lambda>row. case row ''Title 1'' of Str t \<Rightarrow> 60 < length t | _ \<Rightarrow> False)"
  "matches description_too_long =
     (\<lambda>row. case row ''Meta Description 1'' of Str t \<Rightarrow> 160 < length t | _ \<Rightarrow> False)"
  "matches missing_alt_text = (\<lambda>row. row ''Alt Text'' = NaN)"
  "matches multiple_h1 = (\<lambda>row. row ''H1-2'' \<noteq> NaN)"
  by (rule ext, simp)+

lemma broken_links_created:
  assumes "broken_links_records d = Inr rs" and "r \<in> set rs"
  shows "itype r \<in> {broken_links, server_errors} \<and> sound_record r \<and> first_five_examples d r"
proof (cases "d ''response_codes''")
  case None
  with assms show ?thesis by (simp add: broken_links_records_def)
next
  case (Some df)
  let ?sc = "map (\<lambda>r. r ''Status Code'') (rows df)"
  from assms(1) Some obtain m4 r4 m5 r5 where
    m4: "between 400 499 ?sc = Inr m4" and
    r4: "report broken_links ''Broken Links (4xx)''
           ''Pages returning client error status codes''
           ''Fix or redirect broken links to maintain user experience and link equity''
           (select df m4) = Inr r4" and
    m5: "between 500 599 ?sc = Inr m5" and
    r5: "report server_errors ''Server Errors (5xx)''
           ''Pages returning server error status codes''
           ''Investigate server issues and fix the root cause to ensure page availability''
           (select df m5) = Inr r5" and
    rs: "rs = r4 @ r5"
    by (auto simp: broken_links_records_def and_then_eq_Inr getitem_Inr)
  have rows4: "rows (select df m4) = filter (matches broken_links) (rows df)"
    by (simp only: between_Inr [OF m4] rows_select_map matches_funs)
  have rows5: "rows (select df m5) = filter (matches server_errors) (rows df)"
    by (simp only: between_Inr [OF m5] rows_select_map matches_funs)
  from assms(2) rs consider "r \<in> set r4" | "r \<in> set r5" by auto
  then show ?thesis
  proof cases
    case 1
    from report_first_five [OF r4 1 _ rows4, of d] Some show ?thesis by simp
  next
    case 2
    from report_first_five [OF r5 2 _ rows5, of d] Some show ?thesis by simp
  qed
qed

lemma broken_links_itypes:
  assumes "broken_links_records d = Inr rs"
  shows "subseq (map itype rs) [broken_links, server_errors]"
proof (cases "d ''response_codes''")
  case None
  with assms show ?thesis by (simp add: broken_links_records_def)
next
  case (Some df)
  from assms Some obtain t1 d1 c1 f1 r4 t2 d2 c2 f2 r5 where
    r4: "report broken_links t1 d1 c1 f1 = Inr r4" and
    r5: "report server_errors t2 d2 c2 f2 = Inr r5" and
    rs: "rs = r4 @ r5"
    by (auto simp: broken_links_records_def and_then_eq_Inr)
  have "subseq (map itype r4 @ map itype r5) ([broken_links] @ [server_errors])"
    using report_itypes [OF r4] report_itypes [OF r5] by (rule list_emb_append_mono)
  then show ?thesis by (simp add: rs)
qed

lemma redirect_chains_created:
  assumes "redirect_chains_records d = Inr rs" and "r \<in> set rs"
  shows "itype r = redirect_chains \<and> sound_record r \<and> first_five_examples d r"
proof (cases "d ''redirect_chains''")
  case None
  with assms show ?thesis by (simp add: redirect_chains_records_def)
next
  case (Some df)
  show ?thesis
  proof (cases "''Redirect Chain'' \<in> set (columns df)")
    case False
    with assms Some show ?thesis by (simp add: redirect_chains_records_def)
  next
    case True
    let ?col = "map (\<lambda>r. r ''Redirect Chain'') (rows df)"
    from assms(1) Some True obtain m where
      m: "gt ?col 1 = Inr m" and
      rep: "report redirect_chains ''Redirect Chains''
              ''URLs with multiple redirects in sequence''
              ''Reduce redirect chains to a single redirect to improve page speed and reduce crawl budget waste''
              (select df m) = Inr rs"
      by (auto simp: redirect_chains_records_def and_then_eq_Inr getitem_Inr)
    have rws: "rows (select df m) = filter (matches redirect_chains) (rows df)"
      by (simp only: gt_Inr [OF m] rows_select_map matches_funs)
    from report_first_five [OF rep assms(2) _ rws, of d] Some show ?thesis by simp
  qed
qed

lemma redirect_chains_itypes:
  "redirect_chains_records d = Inr rs \<Longrightarrow> subseq (map itype rs) [redirect_chains]"
  by (auto simp: redirect_chains_records_def and_then_eq_Inr
      split: option.splits if_splits dest: report_itypes)

lemma missing_meta_descriptions_created:
  assumes "missing_meta_descriptions_records d = Inr rs" and "r \<in> set rs"
  shows "itype r = missing_meta_descriptions \<and> sound_record r \<and> first_five_examples d r"
proof (cases "d ''meta_description''")
  case None
  with assms show ?thesis by (simp add: missing_meta_descriptions_records_def)
next
  case (Some df)
  let ?col = "map (\<lambda>r. r ''Meta Description 1'') (rows df)"
  from assms(1) Some have
    rep: "report missing_meta_descriptions ''Missing Meta Descriptions''
            ''Pages without meta descriptions''
            ''Add compelling meta descriptions to improve click-through rates from search results''
            (select df (isna ?col)) = Inr rs"
    by (auto simp: missing_meta_descriptions_records_def and_then_eq_Inr getitem_Inr)
  have rws: "rows (select df (isna ?col)) = filter (matches missing_meta_descriptions) (rows df)"
    by (simp only: isna_def rows_select_map matches_funs)
  from report_first_five [OF rep assms(2) _ rws, of d] Some show ?thesis by simp
qed

lemma missing_meta_descriptions_itypes:
  "missing_meta_descriptions_records d = Inr rs
     \<Longrightarrow> subseq (map itype rs) [missing_meta_descriptions]"
  by (auto simp: missing_meta_descriptions_records_def and_then_eq_Inr
      split: option.splits dest: report_itypes)

lemma missing_h1_created:
  assumes "missing_h1_records d = Inr rs" and "r \<in> set rs"
  shows "itype r = missing_h1 \<and> sound_record r \<and> first_five_examples d r"
proof (cases "d ''h1''")
  case None
  with assms show ?thesis by (simp add: missing_h1_records_def)
next
  case (Some df)
  let ?col = "map (\<lambda>r. r ''H1-1'') (rows df)"
  from assms(1) Some have
    rep: "report missing_h1 ''Missing H1 Tags''
            ''Pages without H1 headings''
            ''Add H1 tags to all pages to improve content hierarchy and relevance signals''
            (select df (isna ?col)) = Inr rs"
    by (auto simp: missing_h1_records_def and_then_eq_Inr getitem_Inr)
  have rws: "rows (select df (isna ?col)) = filter (matches missing_h1) (rows df)"
    by (simp only: isna_def rows_select_map matches_funs)
  from report_first_five [OF rep assms(2) _ rws, of d] Some show ?thesis by simp
qed

lemma missing_h1_itypes:
  "missing_h1_records d = Inr rs \<Longrightarrow> subseq (map itype rs) [missing_h1]"
  by (auto simp: missing_h1_records_def and_then_eq_Inr
      split: option.splits dest: report_itypes)

lemma slow_pages_created:
  assumes "slow_pages_records d = Inr rs" and "r \<in> set rs"
  shows "itype r = slow_pages \<and> sound_record r \<and> first_five_examples d r"
proof (cases "d ''page_speed''")
  case None
  with assms show ?thesis by (simp add: slow_pages_records_def)
next
  case (Some df)
  show ?thesis
  proof (cases "''Page Load Time (Seconds)'' \<in> set (columns df)")
    case False
    with assms Some show ?thesis by (simp add: slow_pages_records_def)
  next
    case True
    let ?col = "map (\<lambda>r. r ''Page Load Time (Seconds)'') (rows df)"
    from assms(1) Some True obtain m where
      m: "gt ?col 3 = Inr m" and
      rep: "report slow_pages ''Slow-Loading Pages''
              ''Pages with load time greater than 3.0 seconds''
              ''Optimize page speed by reducing file sizes, implementing caching, and minimizing render-blocking resources''
              (select df m) = Inr rs"
      by (auto simp: slow_pages_records_def and_then_eq_Inr getitem_Inr)
    have rws: "rows (select df m) = filter (matches slow_pages) (rows df)"
      by (simp only: gt_Inr [OF m] rows_select_map matches_funs)
    from report_first_five [OF rep assms(2) _ rws, of d] Some show ?thesis by simp
  qed
qed

lemma slow_pages_itypes:
  "slow_pages_records d = Inr rs \<Longrightarrow> subseq (map itype rs) [slow_pages]"
  by (auto simp: slow_pages_records_def and_then_eq_Inr
      split: option.splits if_splits dest: report_itypes)

lemma filter_text_longer:
  "filter (\<lambda>r. r c \<noteq> NaN \<and> (case r c of Str s \<Rightarrow> n < length s | _ \<Rightarrow> False)) rs
     = filter (\<lambda>r. case r c of Str s \<Rightarrow> n < length s | _ \<Rightarrow> False) rs"
  by (rule filter_cong) (auto split: cell.splits)

lemma title_length_created:
  assumes "title_length_records d = Inr rs" and "r \<in> set rs"
  shows "itype r = title_too_long \<and> sound_record r \<and> first_five_examples d r"
proof (cases "d ''page_titles''")
  case None
  with assms show ?thesis by (simp add: title_length_records_def)
next
  case (Some df0)
  let ?df = "df0\<lparr>rows := filter (\<lambda>r. r ''Title 1'' \<noteq> NaN) (rows df0)\<rparr>"
  from assms(1) Some obtain m where
    m: "str_len_gt ?df ''Title 1'' 60 = Inr m" and
    rep: "report title_too_long ''Page Titles Too Long''
            ''Page titles longer than 60 characters''
            ''Shorten page titles to under 60 characters to avoid truncation in search results''
            (select ?df m) = Inr rs"
    by (auto simp: title_length_records_def and_then_eq_Inr dropna_Inr)
  have "rows (select ?df m)
          = filter (\<lambda>r. case r ''Title 1'' of Str s \<Rightarrow> 60 < length s | _ \<Rightarrow> False) (rows ?df)"
    by (simp only: str_len_gt_Inr [OF m] rows_select_map)
  then have rws: "rows (select ?df m) = filter (matches title_too_long) (rows df0)"
    by (simp add: filter_text_longer matches_funs)
  from report_first_five [OF rep assms(2) _ rws, of d] Some show ?thesis by simp
qed

lemma title_length_itypes:
  "title_length_records d = Inr rs \<Longrightarrow> subseq (map itype rs) [title_too_long]"
  by (auto simp: title_length_records_def and_then_eq_Inr
      split: option.splits dest: report_itypes)

lemma description_length_created:
  assumes "description_length_records d = Inr rs" and "r \<in> set rs"
  shows "itype r = description_too_long \<and> sound_record r \<and> first_five_examples d r"
proof (cases "d ''meta_description''")
  case None
  with assms show ?thesis by (simp add: description_length_records_def)
next
  case (Some df0)
  let ?df = "df0\<lparr>rows := filter (\<lambda>r. r ''Meta Description 1'' \<noteq> NaN) (rows df0)\<rparr>"
  from assms(1) Some obtain m where
    m: "str_len_gt ?df ''Meta Description 1'' 160 = Inr m" and
    rep: "report description_too_long ''Meta Descriptions Too Long''
            ''Meta descriptions longer than 160 characters''
            ''Shorten meta descriptions to under 160 characters to avoid truncation in search results''
            (select ?df m) = Inr rs"
    by (auto simp: description_length_records_def and_then_eq_Inr dropna_Inr)
  have "rows (select ?df m)
          = filter (\<lambda>r. case r ''Meta Description 1'' of Str s \<Rightarrow> 160 < length s | _ \<Rightarrow> False)
              (rows ?df)"
    by (simp only: str_len_gt_Inr [OF m] rows_select_map)
  then have rws: "rows (select ?df m) = filter (matches description_too_long) (rows df0)"
    by (simp add: filter_text_longer matches_funs)
  from report_first_five [OF rep assms(2) _ rws, of d] Some show ?thesis by simp
qed

lemma description_length_itypes:
  "description_length_records d = Inr rs \<Longrightarrow> subseq (map itype rs) [description_too_long]"
  by (auto simp: description_length_records_def and_then_eq_Inr
      split: option.splits dest: report_itypes)

lemma missing_alt_text_created:
  assumes "missing_alt_text_records d = Inr rs" and "r \<in> set rs"
  shows "itype r = missing_alt_text \<and> sound_record r \<and> first_five_examples d r"
proof (cases "d ''images''")
  case None
  with assms show ?thesis by (simp add: missing_alt_text_records_def)
next
  case (Some df)
  let ?col = "map (\<lambda>r. r ''Alt Text'') (rows df)"
  from assms(1) Some have
    rep: "report missing_alt_text ''Images Missing Alt Text''
            ''Images without alternative text''
            ''Add descriptive alt text to all images to improve accessibility and image search visibility''
            (select df (isna ?col)) = Inr rs"
    by (auto simp: missing_alt_text_records_def and_then_eq_Inr getitem_Inr)
  have rws: "rows (select df (isna ?col)) = filter (matches missing_alt_text) (rows df)"
    by (simp only: isna_def rows_select_map matches_funs)
  from report_first_five [OF rep assms(2) _ rws, of d] Some show ?thesis by simp
qed

lemma missing_alt_text_itypes:
  "missing_alt_text_records d = Inr rs \<Longrightarrow> subseq (map itype rs) [missing_alt_text]"
  by (auto simp: missing_alt_text_records_def and_then_eq_Inr
      split: option.splits dest: report_itypes)

lemma multiple_h1_created:
  assumes "multiple_h1_records d = Inr rs" and "r \<in> set rs"
  shows "itype r = multiple_h1 \<and> sound_record r \<and> first_five_examples d r"
proof (cases "d ''h1''")
  case None
  with assms show ?thesis by (simp add: multiple_h1_records_def)
next
  case (Some df)
  show ?thesis
  proof (cases "''H1-2'' \<in> set (columns df)")
    case False
    with assms Some show ?thesis by (simp add: multiple_h1_records_def)
  next
    case True
    let ?m = "df\<lparr>rows := filter (\<lambda>r. r ''H1-2'' \<noteq> NaN) (rows df)\<rparr>"
    from assms(1) Some True have
      rep: "report multiple_h1 ''Multiple H1 Tags''
              ''Pages with more than one H1 heading''
              ''Use a single H1 tag per page to maintain clear content hierarchy''
              ?m = Inr rs"
      by (auto simp: multiple_h1_records_def and_then_eq_Inr dropna_Inr)
    have rws: "rows ?m = filter (matches multiple_h1) (rows df)"
      by (simp add: matches_funs)
    from report_first_five [OF rep assms(2) _ rws, of d] Some show ?thesis by simp
  qed
qed

lemma multiple_h1_itypes:
  "multiple_h1_records d = Inr rs \<Longrightarrow> subseq (map itype rs) [multiple_h1]"
  by (auto simp: multiple_h1_records_def and_then_eq_Inr
      split: option.splits if_splits dest: report_itypes)

subsection \<open>Duplicated titles\<close>

lemma set_uniq [simp]: "set (uniq xs) = set xs"
  by (simp add: uniq_def)

lemma distinct_uniq [simp]: "distinct (uniq xs)"
  by (simp add: uniq_def)

lemma count_list_filter:
  "count_list (filter P xs) x = (if P x then count_list xs x else 0)"
  by (induction xs) auto

lemma value_counts_drop [simp]:
  "value_counts (filter (\<lambda>c. c \<noteq> NaN) col) = value_counts col"
  by (simp add: value_counts_def)

lemma set_value_counts:
  "set (value_counts col) =
     (\<lambda>k. (k, count_list col k)) ` {k \<in> set col. k \<noteq> NaN}"
  by (auto simp: value_counts_def Let_def count_list_filter)

lemma distinct_map_sorted_reverse:
  "distinct (map f (sorted_reverse key xs)) \<longleftrightarrow> distinct (map f xs)"
proof -
  have "mset (map f (sorted_reverse key xs)) = mset (map f xs)"
    by (simp only: mset_map mset_sorted_reverse)
  then show ?thesis
    by (rule mset_eq_imp_distinct_iff)
qed

lemma distinct_value_counts: "distinct (map fst (value_counts col))"
  by (simp add: value_counts_def Let_def distinct_map_sorted_reverse comp_def)

lemma duplicated_drop [simp]: "duplicated (filter (\<lambda>c. c \<noteq> NaN) col) = duplicated col"
  by (simp add: duplicated_def)

lemma distinct_duplicated: "distinct (duplicated col)"
  unfolding duplicated_def by (rule distinct_map_filter) (rule distinct_value_counts)

lemma set_duplicated: "set (duplicated col) = {t. t \<noteq> NaN \<and> 2 \<le> count_list col t}"
proof (rule set_eqI)
  fix t
  have present: "t \<in> set col" if "2 \<le> count_list col t"
    using that by (metis count_notin not_numeral_le_zero)
  have "t \<in> set (duplicated col) \<longleftrightarrow> (t, count_list col t) \<in> set (value_counts col) \<and> 1 < count_list col t"
    by (force simp: duplicated_def set_value_counts)
  also have "\<dots> \<longleftrightarrow> t \<in> set col \<and> t \<noteq> NaN \<and> 1 < count_list col t"
    by (auto simp: set_value_counts)
  also have "\<dots> \<longleftrightarrow> t \<noteq> NaN \<and> 2 \<le> count_list col t"
    using present by auto
  finally show "t \<in> set (duplicated col) \<longleftrightarrow> t \<in> {t. t \<noteq> NaN \<and> 2 \<le> count_list col t}"
    by simp
qed

lemma title_examples_Inr:
  "title_examples df ts = Inr ex \<Longrightarrow>
     ex = concat (map (\<lambda>t. take 2 (map (\<lambda>row. row ''Address'')
                                   (filter (\<lambda>row. row ''Title 1'' = t) (rows df)))) ts)"
proof (induction ts arbitrary: ex)
  case Nil
  then show ?case by simp
next
  case (Cons t ts)
  from Cons.prems obtain addr rest where
    addr: "getitem (select df (map (\<lambda>r. r ''Title 1'' = t) (rows df))) ''Address'' = Inr addr" and
    rest: "title_examples df ts = Inr rest" and
    ex: "ex = take 2 addr @ rest"
    by (auto simp: and_then_eq_Inr)
  from addr have "addr = map (\<lambda>row. row ''Address'') (filter (\<lambda>row. row ''Title 1'' = t) (rows df))"
    by (simp add: getitem_Inr rows_select_rowwise)
  with Cons.IH [OF rest] ex show ?case by simp
qed

lemma duplicate_titles_created:
  assumes "duplicate_titles_records d = Inr rs" and "r \<in> set rs"
  shows "itype r = duplicate_titles \<and> sound_record r \<and> sampled_title_examples d r"
proof (cases "d ''page_titles''")
  case None
  with assms show ?thesis by (simp add: duplicate_titles_records_def)
next
  case (Some df0)
  let ?rows = "filter (\<lambda>r. r ''Title 1'' \<noteq> NaN) (rows df0)"
  let ?df = "df0\<lparr>rows := ?rows\<rparr>"
  let ?dups = "duplicated (map (\<lambda>r. r ''Title 1'') (rows df0))"
  have col: "map (\<lambda>r. r ''Title 1'') ?rows = filter (\<lambda>c. c \<noteq> NaN) (map (\<lambda>r. r ''Title 1'') (rows df0))"
    by (simp add: filter_map comp_def)
  have dups: "duplicated (map (\<lambda>r. r ''Title 1'') ?rows) = ?dups"
    by (simp only: col duplicated_drop)
  from assms Some obtain ex where
    nonempty: "?dups \<noteq> []" and
    ex: "title_examples ?df (take 5 ?dups) = Inr ex" and
    r: "r = made_issue duplicate_titles ''Duplicate Page Titles''
              ''Multiple pages using the same title''
              (length ?dups) (take 5 ex)
              ''Create unique page titles to improve SEO and user experience''"
    by (auto simp: duplicate_titles_records_def and_then_eq_Inr dropna_Inr getitem_Inr dups
        Let_def split: if_splits)
  have same: "filter (\<lambda>row. row ''Title 1'' = t) ?rows = filter (\<lambda>row. row ''Title 1'' = t) (rows df0)"
    if "t \<in> set (take 5 ?dups)" for t
  proof -
    from that have "t \<in> set ?dups" by (rule in_set_takeD)
    then have "t \<noteq> NaN" by (simp add: set_duplicated)
    then show ?thesis by (auto intro: filter_cong)
  qed
  have "ex = concat (map (\<lambda>t. take 2 (map (\<lambda>row. row ''Address'')
                                   (filter (\<lambda>row. row ''Title 1'' = t) ?rows))) (take 5 ?dups))"
    using title_examples_Inr [OF ex] by simp
  also have "\<dots> = concat (map (\<lambda>t. take 2 (map (\<lambda>row. row ''Address'')
                                   (filter (\<lambda>row. row ''Title 1'' = t) (rows df0)))) (take 5 ?dups))"
    using same by (simp cong: map_cong)
  finally have ex_eq: "ex = concat (map (\<lambda>t. take 2 (map (\<lambda>row. row ''Address'')
                                   (filter (\<lambda>row. row ''Title 1'' = t) (rows df0)))) (take 5 ?dups))" .
  from nonempty have "1 \<le> length ?dups"
    by (simp add: Suc_le_eq)
  then have "sound_record r"
    unfolding r by (intro sound_made_issue) simp_all
  moreover have "itype r = duplicate_titles"
    by (simp add: r made_issue_def)
  moreover have "sampled_title_examples d r"
    by (simp add: sampled_title_examples_def Some Let_def r made_issue_def ex_eq)
  ultimately show ?thesis by simp
qed

lemma duplicate_titles_itypes:
  "duplicate_titles_records d = Inr rs \<Longrightarrow> subseq (map itype rs) [duplicate_titles]"
  by (auto simp: duplicate_titles_records_def and_then_eq_Inr made_issue_def Let_def
      split: option.splits if_splits)

lemma run_analysis_Inr:
  "run_analysis today s = Inr s' \<longleftrightarrow>
     (\<exists>m. detect s = Inr m \<and> s' = summarise today (sort_buckets m))"
  by (auto simp: run_analysis_def and_then_eq_Inr)

lemma buckets_summarise [simp]:
  "critical (summarise today s) = critical s"
  "high (summarise today s) = high s"
  "medium (summarise today s) = medium s"
  "low (summarise today s) = low s"
  "data (summarise today s) = data s"
  by (simp_all add: summarise_def)

lemma buckets_sort_buckets [simp]:
  "critical (sort_buckets s) = sorted_reverse priority_score (critical s)"
  "high (sort_buckets s) = sorted_reverse priority_score (high s)"
  "medium (sort_buckets s) = sorted_reverse priority_score (medium s)"
  "low (sort_buckets s) = sorted_reverse priority_score (low s)"
  "data (sort_buckets s) = data s"
  by (simp_all add: sort_buckets_def)

lemmas example_defs = example_codes_def example_titles_def example_meta_def example_h1_def
  example_data_def example_audit_def row_of_def init_def

lemmas frame_defs = getitem_def between_def gt_def isna_def dropna_def str_len_gt_def
  is_str_def report_def select_def empty_def

lemma example_records:
  "\<exists>rs. broken_links_records example_data = Inr rs"
  "\<exists>rs. redirect_chains_records example_data = Inr rs"
  "\<exists>rs. duplicate_titles_records example_data = Inr rs"
  "\<exists>rs. missing_meta_descriptions_records example_data = Inr rs"
  "\<exists>rs. missing_h1_records example_data = Inr rs"
  "\<exists>rs. slow_pages_records example_data = Inr rs"
  "\<exists>rs. title_length_records example_data = Inr rs"
  "\<exists>rs. description_length_records example_data = Inr rs"
  "\<exists>rs. missing_alt_text_records example_data = Inr rs"
  "\<exists>rs. multiple_h1_records example_data = Inr rs"
  by (simp_all add: records_defs example_defs frame_defs duplicated_def
      value_counts_def uniq_def sorted_reverse_def Let_def)

lemma example_run: "\<exists>s'. run_analysis ''2024-01-01'' example_audit = Inr s'"
proof -
  have "data example_audit = example_data"
    by (simp add: example_audit_def)
  with example_records have "\<exists>m. detect example_audit = Inr m"
    unfolding detect_Inr by (elim exE) simp
  then show ?thesis
    by (auto simp: run_analysis_Inr)
qed

lemma example_broken_links_records:
  "broken_links_records example_data =
     Inr [example_broken_links_issue, example_server_errors_issue]"
  by (simp add: broken_links_records_def example_defs frame_defs
      example_broken_links_issue_def example_server_errors_issue_def numeral_2_eq_2
      made_issue_def)

lemma example_duplicate_titles_records:
  "duplicate_titles_records example_data = Inr [example_duplicate_titles_issue]"
  by (simp add: duplicate_titles_records_def example_defs frame_defs duplicated_def
      value_counts_def uniq_def sorted_reverse_def Let_def example_duplicate_titles_issue_def
      made_issue_def)

lemma example_other_records:
  "redirect_chains_records example_data = Inr []"
  "slow_pages_records example_data = Inr []"
  "missing_alt_text_records example_data = Inr []"
  "title_length_records example_data = Inr []"
  "description_length_records example_data = Inr []"
  "missing_meta_descriptions_records example_data =
     Inr [made_issue missing_meta_descriptions ''Missing Meta Descriptions''
            ''Pages without meta descriptions'' 1 [Str ''/b'']
            ''Add compelling meta descriptions to improve click-through rates from search results'']"
  "missing_h1_records example_data =
     Inr [made_issue missing_h1 ''Missing H1 Tags'' ''Pages without H1 headings'' 1 [Str ''/b'']
            ''Add H1 tags to all pages to improve content hierarchy and relevance signals'']"
  "multiple_h1_records example_data =
     Inr [made_issue multiple_h1 ''Multiple H1 Tags'' ''Pages with more than one H1 heading'' 1
            [Str ''/a''] ''Use a single H1 tag per page to maintain clear content hierarchy'']"
  by (simp_all add: records_defs example_defs frame_defs)

lemma example_run_result:
  assumes "run_analysis today example_audit = Inr s'"
  shows "critical s' = [example_duplicate_titles_issue, example_broken_links_issue,
                        example_server_errors_issue] \<and>
         map itype (high s') = [missing_meta_descriptions, missing_h1] \<and>
         map priority_score (high s') = [7 / 2, 7 / 2] \<and>
         medium s' = [] \<and>
         map itype (low s') = [multiple_h1]"
proof -
  from assms obtain m where m: "detect example_audit = Inr m"
    and s': "s' = summarise today (sort_buckets m)"
    by (auto simp: run_analysis_Inr)
  have d: "data example_audit = example_data" and
    fresh: "critical example_audit = []" "high example_audit = []"
      "medium example_audit = []" "low example_audit = []"
    by (simp_all add: example_audit_def init_def)
  from m have m_eq: "m = example_audit
      \<lparr>critical := [example_broken_links_issue, example_server_errors_issue,
                    example_duplicate_titles_issue],
       high := [made_issue missing_meta_descriptions ''Missing Meta Descriptions''
            ''Pages without meta descriptions'' 1 [Str ''/b'']
            ''Add compelling meta descriptions to improve click-through rates from search results'',
                made_issue missing_h1 ''Missing H1 Tags'' ''Pages without H1 headings'' 1 [Str ''/b'']
            ''Add H1 tags to all pages to improve content hierarchy and relevance signals''],
       medium := [],
       low := [made_issue multiple_h1 ''Multiple H1 Tags'' ''Pages with more than one H1 heading'' 1
            [Str ''/a''] ''Use a single H1 tag per page to maintain clear content hierarchy'']\<rparr>"
    by (auto simp: detect_Inr d fresh example_broken_links_records
        example_duplicate_titles_records example_other_records)
  show ?thesis
    by (simp add: s' m_eq sorted_reverse_def example_broken_links_issue_def
        example_server_errors_issue_def example_duplicate_titles_issue_def made_issue_def)
qed

section \<open>Checks on absent tables and absent columns\<close>

text \<open>
  Claim C4. A check whose source table is absent from the loaded data creates no record and
  raises no error: the method returns normally and leaves the instance, and with it the four
  severity buckets, as it was. This holds for each of the ten methods of the detector.
\<close>

theorem absent_table_no_record:
  "(data s ''response_codes'' = None \<longrightarrow> analyze_broken_links s = Inr s) \<and>
   (data s ''redirect_chains'' = None \<longrightarrow> analyze_redirect_chains s = Inr s) \<and>
   (data s ''page_titles'' = None \<longrightarrow> analyze_duplicate_titles s = Inr s) \<and>
   (data s ''meta_description'' = None \<longrightarrow> analyze_missing_meta_descriptions s = Inr s) \<and>
   (data s ''h1'' = None \<longrightarrow> analyze_missing_h1 s = Inr s) \<and>
   (data s ''page_speed'' = None \<longrightarrow> analyze_slow_pages s = Inr s) \<and>
   (data s ''page_titles'' = None \<longrightarrow> analyze_title_length s = Inr s) \<and>
   (data s ''meta_description'' = None \<longrightarrow> analyze_description_length s = Inr s) \<and>
   (data s ''images'' = None \<longrightarrow> analyze_missing_alt_text s = Inr s) \<and>
   (data s ''h1'' = None \<longrightarrow> analyze_multiple_h1 s = Inr s)"
  by (simp add: analyze_defs records_defs to_defs)

theorem absent_table_no_record_witness:
  "data (init ''exports'') ''response_codes'' = None \<and>
   analyze_broken_links (init ''exports'') = Inr (init ''exports'') \<and>
   data (init ''exports'') ''redirect_chains'' = None \<and>
   analyze_redirect_chains (init ''exports'') = Inr (init ''exports'') \<and>
   data (init ''exports'') ''page_titles'' = None \<and>
   analyze_duplicate_titles (init ''exports'') = Inr (init ''exports'') \<and>
   analyze_title_length (init ''exports'') = Inr (init ''exports'') \<and>
   data (init ''exports'') ''meta_description'' = None \<and>
   analyze_missing_meta_descriptions (init ''exports'') = Inr (init ''exports'') \<and>
   analyze_description_length (init ''exports'') = Inr (init ''exports'') \<and>
   data (init ''exports'') ''h1'' = None \<and>
   analyze_missing_h1 (init ''exports'') = Inr (init ''exports'') \<and>
   analyze_multiple_h1 (init ''exports'') = Inr (init ''exports'') \<and>
   data (init ''exports'') ''page_speed'' = None \<and>
   analyze_slow_pages (init ''exports'') = Inr (init ''exports'') \<and>
   data (init ''exports'') ''images'' = None \<and>
   analyze_missing_alt_text (init ''exports'') = Inr (init ''exports'')"
proof -
  have absent: "data (init ''exports'') key = None" for key
    by (simp add: init_def)
  show ?thesis
    using absent_table_no_record [of "init ''exports''"] by (simp add: absent)
qed

text \<open>
  Claim C9. When the source table is loaded but lacks the column a check filters on, the
  checks differ: \<open>analyze_redirect_chains\<close>, \<open>analyze_slow_pages\<close> and \<open>analyze_multiple_h1\<close>
  test for their column and return with nothing added, while the seven other checks read
  their column unguarded and raise \<open>KeyError\<close> for it.
\<close>

theorem missing_column_asymmetry:
  "(data s ''redirect_chains'' = Some df \<and> ''Redirect Chain'' \<notin> set (columns df)
      \<longrightarrow> analyze_redirect_chains s = Inr s) \<and>
   (data s ''page_speed'' = Some df \<and> ''Page Load Time (Seconds)'' \<notin> set (columns df)
      \<longrightarrow> analyze_slow_pages s = Inr s) \<and>
   (data s ''h1'' = Some df \<and> ''H1-2'' \<notin> set (columns df)
      \<longrightarrow> analyze_multiple_h1 s = Inr s) \<and>
   (data s ''response_codes'' = Some df \<and> ''Status Code'' \<notin> set (columns df)
      \<longrightarrow> analyze_broken_links s = Inl (KeyError ''Status Code'')) \<and>
   (data s ''page_titles'' = Some df \<and> ''Title 1'' \<notin> set (columns df)
      \<longrightarrow> analyze_duplicate_titles s = Inl (KeyError ''Title 1'')) \<and>
   (data s ''meta_description'' = Some df \<and> ''Meta Description 1'' \<notin> set (columns df)
      \<longrightarrow> analyze_missing_meta_descriptions s = Inl (KeyError ''Meta Description 1'')) \<and>
   (data s ''h1'' = Some df \<and> ''H1-1'' \<notin> set (columns df)
      \<longrightarrow> analyze_missing_h1 s = Inl (KeyError ''H1-1'')) \<and>
   (data s ''page_titles'' = Some df \<and> ''Title 1'' \<notin> set (columns df)
      \<longrightarrow> analyze_title_length s = Inl (KeyError ''Title 1'')) \<and>
   (data s ''meta_description'' = Some df \<and> ''Meta Description 1'' \<notin> set (columns df)
      \<longrightarrow> analyze_description_length s = Inl (KeyError ''Meta Description 1'')) \<and>
   (data s ''images'' = Some df \<and> ''Alt Text'' \<notin> set (columns df)
      \<longrightarrow> analyze_missing_alt_text s = Inl (KeyError ''Alt Text''))"
  by (simp add: analyze_defs records_defs to_defs getitem_def dropna_def)

theorem missing_column_asymmetry_witness:
  "(\<forall>key. data address_only_audit key = Some address_only) \<and>
   set (columns address_only) = {''Address''} \<and>
   analyze_redirect_chains address_only_audit = Inr address_only_audit \<and>
   analyze_slow_pages address_only_audit = Inr address_only_audit \<and>
   analyze_multiple_h1 address_only_audit = Inr address_only_audit \<and>
   analyze_broken_links address_only_audit = Inl (KeyError ''Status Code'') \<and>
   analyze_duplicate_titles address_only_audit = Inl (KeyError ''Title 1'') \<and>
   analyze_missing_meta_descriptions address_only_audit = Inl (KeyError ''Meta Description 1'') \<and>
   analyze_missing_h1 address_only_audit = Inl (KeyError ''H1-1'') \<and>
   analyze_title_length address_only_audit = Inl (KeyError ''Title 1'') \<and>
   analyze_description_length address_only_audit = Inl (KeyError ''Meta Description 1'') \<and>
   analyze_missing_alt_text address_only_audit = Inl (KeyError ''Alt Text'')"
proof -
  have loaded: "data address_only_audit key = Some address_only" for key
    by (simp add: address_only_audit_def)
  have cols: "set (columns address_only) = {''Address''}"
    by (simp add: address_only_def)
  show ?thesis
    using missing_column_asymmetry [of address_only_audit address_only]
    by (simp add: loaded cols)
qed

section \<open>Priority order of the buckets\<close>

text \<open>
  Claim C1. When \<open>run_analysis\<close> returns, the checks have run in the order broken links,
  server errors, redirect chains, duplicate titles, missing meta descriptions, missing H1,
  slow pages, title too long, description too long, missing alt text, multiple H1; every
  record they emitted carries the impact and the effort that the catalog gives its type, the
  effort is at least 1, and its \<open>priority_score\<close> is its impact divided by its effort (the
  score times the effort is the impact); and each of the four buckets is the bucket as the checks left it, stably sorted by
  \<open>priority_score\<close> in descending order, so that records with equal scores keep the order
  in which they were emitted.
\<close>

theorem run_analysis_priority_order:
  assumes "run_analysis today s = Inr s'"
  shows "\<exists>bl rc dt mm mh sp tl dl ma m1.
           broken_links_records (data s) = Inr bl \<and>
           redirect_chains_records (data s) = Inr rc \<and>
           duplicate_titles_records (data s) = Inr dt \<and>
           missing_meta_descriptions_records (data s) = Inr mm \<and>
           missing_h1_records (data s) = Inr mh \<and>
           slow_pages_records (data s) = Inr sp \<and>
           title_length_records (data s) = Inr tl \<and>
           description_length_records (data s) = Inr dl \<and>
           missing_alt_text_records (data s) = Inr ma \<and>
           multiple_h1_records (data s) = Inr m1 \<and>
           subseq (map itype (bl @ rc @ dt @ mm @ mh @ sp @ tl @ dl @ ma @ m1))
             [broken_links, server_errors, redirect_chains, duplicate_titles,
              missing_meta_descriptions, missing_h1, slow_pages, title_too_long,
              description_too_long, missing_alt_text, multiple_h1] \<and>
           (\<forall>r \<in> set (bl @ rc @ dt @ mm @ mh @ sp @ tl @ dl @ ma @ m1).
              impact r = fst (ISSUE_SCORES (itype r)) \<and>
              effort r = fst (snd (ISSUE_SCORES (itype r))) \<and>
              1 \<le> effort r \<and>
              priority_score r * of_int (effort r) = of_int (impact r) \<and>
              priority_score r = of_int (impact r) / of_int (effort r)) \<and>
           stable_descending priority_score (critical s @ bl @ rc @ dt) (critical s') \<and>
           stable_descending priority_score (high s @ mm @ mh @ sp) (high s') \<and>
           stable_descending priority_score (medium s @ tl @ dl @ ma) (medium s') \<and>
           stable_descending priority_score (low s @ m1) (low s')"
proof -
  from assms obtain m where m: "detect s = Inr m" and s': "s' = summarise today (sort_buckets m)"
    by (auto simp: run_analysis_Inr)
  from m obtain bl rc dt mm mh sp tl dl ma m1 where
    recs: "broken_links_records (data s) = Inr bl"
      "redirect_chains_records (data s) = Inr rc"
      "duplicate_titles_records (data s) = Inr dt"
      "missing_meta_descriptions_records (data s) = Inr mm"
      "missing_h1_records (data s) = Inr mh"
      "slow_pages_records (data s) = Inr sp"
      "title_length_records (data s) = Inr tl"
      "description_length_records (data s) = Inr dl"
      "missing_alt_text_records (data s) = Inr ma"
      "multiple_h1_records (data s) = Inr m1" and
    m_eq: "m = s\<lparr>critical := critical s @ bl @ rc @ dt,
                  high := high s @ mm @ mh @ sp,
                  medium := medium s @ tl @ dl @ ma,
                  low := low s @ m1\<rparr>"
    by (auto simp: detect_Inr)
  note emb = list_emb_append_mono [where P = "(=)"]
  have "subseq (map itype bl @ map itype rc @ map itype dt @ map itype mm @ map itype mh
                  @ map itype sp @ map itype tl @ map itype dl @ map itype ma @ map itype m1)
          ([broken_links, server_errors] @ [redirect_chains] @ [duplicate_titles]
             @ [missing_meta_descriptions] @ [missing_h1] @ [slow_pages] @ [title_too_long]
             @ [description_too_long] @ [missing_alt_text] @ [multiple_h1])"
    by (intro emb broken_links_itypes [OF recs(1)] redirect_chains_itypes [OF recs(2)]
        duplicate_titles_itypes [OF recs(3)] missing_meta_descriptions_itypes [OF recs(4)]
        missing_h1_itypes [OF recs(5)] slow_pages_itypes [OF recs(6)]
        title_length_itypes [OF recs(7)] description_length_itypes [OF recs(8)]
        missing_alt_text_itypes [OF recs(9)] multiple_h1_itypes [OF recs(10)])
  then have order: "subseq (map itype (bl @ rc @ dt @ mm @ mh @ sp @ tl @ dl @ ma @ m1))
             [broken_links, server_errors, redirect_chains, duplicate_titles,
              missing_meta_descriptions, missing_h1, slow_pages, title_too_long,
              description_too_long, missing_alt_text, multiple_h1]"
    by simp
  have score: "impact r = fst (ISSUE_SCORES (itype r)) \<and>
              effort r = fst (snd (ISSUE_SCORES (itype r))) \<and>
              1 \<le> effort r \<and>
              priority_score r * of_int (effort r) = of_int (impact r) \<and>
              priority_score r = of_int (impact r) / of_int (effort r)"
    if "r \<in> set (bl @ rc @ dt @ mm @ mh @ sp @ tl @ dl @ ma @ m1)" for r
  proof -
    from that have "sound_record r"
      using broken_links_created [OF recs(1)] redirect_chains_created [OF recs(2)]
        duplicate_titles_created [OF recs(3)] missing_meta_descriptions_created [OF recs(4)]
        missing_h1_created [OF recs(5)] slow_pages_created [OF recs(6)]
        title_length_created [OF recs(7)] description_length_created [OF recs(8)]
        missing_alt_text_created [OF recs(9)] multiple_h1_created [OF recs(10)]
      by auto
    then show ?thesis by (simp add: sound_record_def)
  qed
  have sorted: 
    "stable_descending priority_score (critical s @ bl @ rc @ dt) (critical s')"
    "stable_descending priority_score (high s @ mm @ mh @ sp) (high s')"
    "stable_descending priority_score (medium s @ tl @ dl @ ma) (medium s')"
    "stable_descending priority_score (low s @ m1) (low s')"
    by (simp_all add: s' m_eq stable_descending_sorted_reverse)
  from recs order score sorted show ?thesis
    by blast
qed

theorem run_analysis_priority_order_witness:
  "\<exists>s'. run_analysis ''2024-01-01'' example_audit = Inr s' \<and>
     (\<exists>bl rc dt mm mh sp tl dl ma m1.
           broken_links_records (data example_audit) = Inr bl \<and>
           redirect_chains_records (data example_audit) = Inr rc \<and>
           duplicate_titles_records (data example_audit) = Inr dt \<and>
           missing_meta_descriptions_records (data example_audit) = Inr mm \<and>
           missing_h1_records (data example_audit) = Inr mh \<and>
           slow_pages_records (data example_audit) = Inr sp \<and>
           title_length_records (data example_audit) = Inr tl \<and>
           description_length_records (data example_audit) = Inr dl \<and>
           missing_alt_text_records (data example_audit) = Inr ma \<and>
           multiple_h1_records (data example_audit) = Inr m1 \<and>
           subseq (map itype (bl @ rc @ dt @ mm @ mh @ sp @ tl @ dl @ ma @ m1))
             [broken_links, server_errors, redirect_chains, duplicate_titles,
              missing_meta_descriptions, missing_h1, slow_pages, title_too_long,
              description_too_long, missing_alt_text, multiple_h1] \<and>
           (\<forall>r \<in> set (bl @ rc @ dt @ mm @ mh @ sp @ tl @ dl @ ma @ m1).
              impact r = fst (ISSUE_SCORES (itype r)) \<and>
              effort r = fst (snd (ISSUE_SCORES (itype r))) \<and>
              1 \<le> effort r \<and>
              priority_score r * of_int (effort r) = of_int (impact r) \<and>
              priority_score r = of_int (impact r) / of_int (effort r)) \<and>
           stable_descending priority_score (critical example_audit @ bl @ rc @ dt)
             (critical s') \<and>
           stable_descending priority_score (high example_audit @ mm @ mh @ sp) (high s') \<and>
           stable_descending priority_score (medium example_audit @ tl @ dl @ ma)
             (medium s') \<and>
           stable_descending priority_score (low example_audit @ m1) (low s')) \<and>
     map itype (critical s') = [duplicate_titles, broken_links, server_errors] \<and>
     map impact (critical s') = [8, 10, 10] \<and>
     map effort (critical s') = [3, 5, 6] \<and>
     map priority_score (critical s') = [8 / 3, 2, 5 / 3] \<and>
     map itype (high s') = [missing_meta_descriptions, missing_h1] \<and>
     map priority_score (high s') = [7 / 2, 7 / 2]"
proof -
  from example_run obtain s' where h: "run_analysis ''2024-01-01'' example_audit = Inr s'" ..
  from example_run_result [OF h] have concrete:
    "map itype (critical s') = [duplicate_titles, broken_links, server_errors] \<and>
     map impact (critical s') = [8, 10, 10] \<and>
     map effort (critical s') = [3, 5, 6] \<and>
     map priority_score (critical s') = [8 / 3, 2, 5 / 3] \<and>
     map itype (high s') = [missing_meta_descriptions, missing_h1] \<and>
     map priority_score (high s') = [7 / 2, 7 / 2]"
    by (simp add: example_broken_links_issue_def example_server_errors_issue_def
        example_duplicate_titles_issue_def)
  show ?thesis
    by (rule exI [of _ s'])
      (rule conjI [OF h conjI [OF run_analysis_priority_order [OF h] concrete]])
qed

section \<open>The summary and repeated runs\<close>

lemma summary_summarise:
  "summary (summarise today s) = Some
     \<lparr>total_issues = length (critical s) + length (high s) + length (medium s) + length (low s),
      critical_count = length (critical s), high_count = length (high s),
      medium_count = length (medium s), low_count = length (low s), date = today,
      highest_impact_issues =
        take 3 (sorted_reverse impact (critical s @ high s @ medium s @ low s))\<rparr>"
  by (simp add: summarise_def get_highest_impact_issues_def)

text \<open>
  Claim C2. When \<open>run_analysis\<close> returns, each bucket is in descending \<open>priority_score\<close> order
  and the highest-impact list of the summary is the first three records of the four buckets
  concatenated in the order critical, high, medium, low and stably sorted by impact in
  descending order; records of equal impact therefore keep that bucket-major order, and the
  length of the list is the minimum of 3 and \<open>total_issues\<close>.
\<close>

theorem highest_impact_summary:
  assumes "run_analysis today s = Inr s'"
  shows "\<exists>sm full.
           summary s' = Some sm \<and>
           sorted_wrt (\<lambda>a b. priority_score b \<le> priority_score a) (critical s') \<and>
           sorted_wrt (\<lambda>a b. priority_score b \<le> priority_score a) (high s') \<and>
           sorted_wrt (\<lambda>a b. priority_score b \<le> priority_score a) (medium s') \<and>
           sorted_wrt (\<lambda>a b. priority_score b \<le> priority_score a) (low s') \<and>
           stable_descending impact (critical s' @ high s' @ medium s' @ low s') full \<and>
           highest_impact_issues sm = take 3 full \<and>
           total_issues sm = length (critical s' @ high s' @ medium s' @ low s') \<and>
           length (highest_impact_issues sm) = min 3 (total_issues sm)"
proof -
  from assms obtain m where s': "s' = summarise today (sort_buckets m)"
    by (auto simp: run_analysis_Inr)
  let ?all = "critical s' @ high s' @ medium s' @ low s'"
  let ?sm = "the (summary s')"
  have sm: "summary s' = Some ?sm"
    by (simp add: s' summary_summarise)
  have "highest_impact_issues ?sm = take 3 (sorted_reverse impact ?all)"
    and "total_issues ?sm = length ?all"
    by (simp_all add: s' summary_summarise)
  moreover from this have "length (highest_impact_issues ?sm) = min 3 (total_issues ?sm)"
    by (simp only: length_take length_sorted_reverse min.commute)
  moreover have "stable_descending impact ?all (sorted_reverse impact ?all)"
    by (rule stable_descending_sorted_reverse)
  moreover have
    "sorted_wrt (\<lambda>a b. priority_score b \<le> priority_score a) (critical s')"
    "sorted_wrt (\<lambda>a b. priority_score b \<le> priority_score a) (high s')"
    "sorted_wrt (\<lambda>a b. priority_score b \<le> priority_score a) (medium s')"
    "sorted_wrt (\<lambda>a b. priority_score b \<le> priority_score a) (low s')"
    by (simp_all add: s' sorted_reverse_descending)
  ultimately show ?thesis
    using sm by blast
qed

theorem highest_impact_summary_witness:
  "\<exists>s'. run_analysis ''2024-01-01'' example_audit = Inr s' \<and>
     (\<exists>sm full.
           summary s' = Some sm \<and>
           sorted_wrt (\<lambda>a b. priority_score b \<le> priority_score a) (critical s') \<and>
           sorted_wrt (\<lambda>a b. priority_score b \<le> priority_score a) (high s') \<and>
           sorted_wrt (\<lambda>a b. priority_score b \<le> priority_score a) (medium s') \<and>
           sorted_wrt (\<lambda>a b. priority_score b \<le> priority_score a) (low s') \<and>
           stable_descending impact (critical s' @ high s' @ medium s' @ low s') full \<and>
           highest_impact_issues sm = take 3 full \<and>
           total_issues sm = length (critical s' @ high s' @ medium s' @ low s') \<and>
           length (highest_impact_issues sm) = min 3 (total_issues sm))"
proof -
  from example_run obtain s' where h: "run_analysis ''2024-01-01'' example_audit = Inr s'" ..
  show ?thesis
    by (rule exI [of _ s']) (rule conjI [OF h highest_impact_summary [OF h]])
qed

text \<open>
  Claim C10. \<open>run_analysis\<close> is not idempotent on one instance. Starting from empty buckets,
  whenever a first call returns, a second call on the resulting instance returns as well;
  each bucket is then the stable priority sort of the bucket of the first call followed by
  a second copy of its records, so that it holds every record of the first call twice and
  its length and the \<open>total_issues\<close> of the summary are doubled. Whenever the first call found
  an issue, the instance after the second call differs from the one after the first.
\<close>

theorem run_analysis_twice:
  assumes "critical s = [] \<and> high s = [] \<and> medium s = [] \<and> low s = []"
    and "run_analysis today s = Inr s1"
  shows "\<exists>s2 sm1 sm2 c h m l.
           run_analysis today' s1 = Inr s2 \<and>
           summary s1 = Some sm1 \<and> summary s2 = Some sm2 \<and>
           mset c = mset (critical s1) \<and>
           stable_descending priority_score (critical s1 @ c) (critical s2) \<and>
           mset h = mset (high s1) \<and>
           stable_descending priority_score (high s1 @ h) (high s2) \<and>
           mset m = mset (medium s1) \<and>
           stable_descending priority_score (medium s1 @ m) (medium s2) \<and>
           mset l = mset (low s1) \<and>
           stable_descending priority_score (low s1 @ l) (low s2) \<and>
           mset (critical s2) = mset (critical s1) + mset (critical s1) \<and>
           mset (high s2) = mset (high s1) + mset (high s1) \<and>
           mset (medium s2) = mset (medium s1) + mset (medium s1) \<and>
           mset (low s2) = mset (low s1) + mset (low s1) \<and>
           length (critical s2) = 2 * length (critical s1) \<and>
           length (high s2) = 2 * length (high s1) \<and>
           length (medium s2) = 2 * length (medium s1) \<and>
           length (low s2) = 2 * length (low s1) \<and>
           total_issues sm1
             = length (critical s1) + length (high s1) + length (medium s1) + length (low s1) \<and>
           total_issues sm2 = 2 * total_issues sm1 \<and>
           (0 < total_issues sm1 \<longrightarrow> s2 \<noteq> s1)"
proof -
  from assms(2) obtain m0 where m0: "detect s = Inr m0"
    and s1: "s1 = summarise today (sort_buckets m0)"
    by (auto simp: run_analysis_Inr)
  from m0 obtain bl rc dt mm mh sp tl dl ma m1 where
    recs: "broken_links_records (data s) = Inr bl"
      "redirect_chains_records (data s) = Inr rc"
      "duplicate_titles_records (data s) = Inr dt"
      "missing_meta_descriptions_records (data s) = Inr mm"
      "missing_h1_records (data s) = Inr mh"
      "slow_pages_records (data s) = Inr sp"
      "title_length_records (data s) = Inr tl"
      "description_length_records (data s) = Inr dl"
      "missing_alt_text_records (data s) = Inr ma"
      "multiple_h1_records (data s) = Inr m1" and
    m_eq: "m0 = s\<lparr>critical := critical s @ bl @ rc @ dt,
                  high := high s @ mm @ mh @ sp,
                  medium := medium s @ tl @ dl @ ma,
                  low := low s @ m1\<rparr>"
    by (auto simp: detect_Inr)
  have data1: "data s1 = data s"
    by (simp add: s1 m_eq)
  have b1: "critical s1 = sorted_reverse priority_score (bl @ rc @ dt)"
    "high s1 = sorted_reverse priority_score (mm @ mh @ sp)"
    "medium s1 = sorted_reverse priority_score (tl @ dl @ ma)"
    "low s1 = sorted_reverse priority_score m1"
    using assms(1) by (simp_all add: s1 m_eq)
  let ?m' = "s1\<lparr>critical := critical s1 @ bl @ rc @ dt,
                high := high s1 @ mm @ mh @ sp,
                medium := medium s1 @ tl @ dl @ ma,
                low := low s1 @ m1\<rparr>"
  let ?s2 = "summarise today' (sort_buckets ?m')"
  have "detect s1 = Inr ?m'"
    unfolding detect_Inr data1 using recs by simp
  then have run2: "run_analysis today' s1 = Inr ?s2"
    by (simp add: run_analysis_Inr)
  have copies: "mset (bl @ rc @ dt) = mset (critical s1)"
    "mset (mm @ mh @ sp) = mset (high s1)"
    "mset (tl @ dl @ ma) = mset (medium s1)"
    "mset m1 = mset (low s1)"
    by (simp_all add: b1)
  have sorted2:
    "stable_descending priority_score (critical s1 @ bl @ rc @ dt) (critical ?s2)"
    "stable_descending priority_score (high s1 @ mm @ mh @ sp) (high ?s2)"
    "stable_descending priority_score (medium s1 @ tl @ dl @ ma) (medium ?s2)"
    "stable_descending priority_score (low s1 @ m1) (low ?s2)"
    by (simp_all add: stable_descending_sorted_reverse)
  have msets: "mset (critical ?s2) = mset (critical s1) + mset (critical s1)"
    "mset (high ?s2) = mset (high s1) + mset (high s1)"
    "mset (medium ?s2) = mset (medium s1) + mset (medium s1)"
    "mset (low ?s2) = mset (low s1) + mset (low s1)"
    by (simp_all add: b1)
  have lens: "length (critical ?s2) = 2 * length (critical s1)"
    "length (high ?s2) = 2 * length (high s1)"
    "length (medium ?s2) = 2 * length (medium s1)"
    "length (low ?s2) = 2 * length (low s1)"
    by (simp_all add: b1)
  let ?sm1 = "the (summary s1)" and ?sm2 = "the (summary ?s2)"
  have sm1: "summary s1 = Some ?sm1"
    by (simp add: s1 summary_summarise)
  have sm2: "summary ?s2 = Some ?sm2"
    by (simp add: summary_summarise)
  have t1: "total_issues ?sm1 = length (critical s1) + length (high s1) + length (medium s1) + length (low s1)"
    by (simp add: s1 summary_summarise)
  have t2: "total_issues ?sm2 = length (critical ?s2) + length (high ?s2) + length (medium ?s2) + length (low ?s2)"
    by (simp add: summary_summarise)
  have total: "total_issues ?sm2 = 2 * total_issues ?sm1"
    by (simp only: t1 t2 lens) simp
  have differs: "?s2 \<noteq> s1" if "0 < total_issues ?sm1"
  proof
    assume same: "?s2 = s1"
    then have "length (critical ?s2) = length (critical s1)" "length (high ?s2) = length (high s1)"
      "length (medium ?s2) = length (medium s1)" "length (low ?s2) = length (low s1)"
      by simp_all
    with lens have "length (critical s1) + length (high s1) + length (medium s1) + length (low s1) = 0"
      by simp
    with that t1 show False by simp
  qed
  from differs have differs': "0 < total_issues ?sm1 \<longrightarrow> ?s2 \<noteq> s1"
    by (rule impI)
  show ?thesis
    by (rule exI [of _ ?s2], rule exI [of _ ?sm1], rule exI [of _ ?sm2],
        rule exI [of _ "bl @ rc @ dt"], rule exI [of _ "mm @ mh @ sp"],
        rule exI [of _ "tl @ dl @ ma"], rule exI [of _ m1])
      (intro conjI run2 sm1 sm2 copies sorted2 msets lens t1 total differs')
qed

theorem run_analysis_twice_witness:
  "(critical example_audit = [] \<and> high example_audit = [] \<and> medium example_audit = [] \<and>
    low example_audit = []) \<and>
   (\<exists>s1 s2 sm1 sm2.
      run_analysis ''2024-01-01'' example_audit = Inr s1 \<and>
      run_analysis ''2024-01-02'' s1 = Inr s2 \<and>
      summary s1 = Some sm1 \<and> summary s2 = Some sm2 \<and>
      length (critical s1) = 3 \<and> length (critical s2) = 6 \<and>
      length (high s1) = 2 \<and> length (high s2) = 4 \<and>
      length (medium s1) = 0 \<and> length (medium s2) = 0 \<and>
      length (low s1) = 1 \<and> length (low s2) = 2 \<and>
      total_issues sm1 = 6 \<and> total_issues sm2 = 12 \<and>
      mset (critical s2) = mset (critical s1) + mset (critical s1) \<and>
      s2 \<noteq> s1)"
proof -
  have fresh: "critical example_audit = [] \<and> high example_audit = [] \<and>
               medium example_audit = [] \<and> low example_audit = []"
    by (simp add: example_audit_def init_def)
  from example_run obtain s1 where h: "run_analysis ''2024-01-01'' example_audit = Inr s1" ..
  from example_run_result [OF h] have first:
    "length (critical s1) = 3" "length (high s1) = 2" "length (medium s1) = 0"
    "length (low s1) = 1"
    by (auto dest: arg_cong [where f = length])
  from run_analysis_twice [OF fresh h, of "''2024-01-02''"] obtain s2 sm1 sm2 where
    second: "run_analysis ''2024-01-02'' s1 = Inr s2"
      "summary s1 = Some sm1" "summary s2 = Some sm2"
      "mset (critical s2) = mset (critical s1) + mset (critical s1)"
      "length (critical s2) = 2 * length (critical s1)"
      "length (high s2) = 2 * length (high s1)"
      "length (medium s2) = 2 * length (medium s1)"
      "length (low s2) = 2 * length (low s1)"
      "total_issues sm1
         = length (critical s1) + length (high s1) + length (medium s1) + length (low s1)"
      "total_issues sm2 = 2 * total_issues sm1"
      "0 < total_issues sm1 \<longrightarrow> s2 \<noteq> s1"
    by (elim exE conjE) (rule that, assumption+)
  from second(9) first have t1: "total_issues sm1 = 6"
    by simp
  with second(10) have t2: "total_issues sm2 = 12"
    by simp
  from second(11) t1 have differs: "s2 \<noteq> s1"
    by simp
  from second(5-8) first have twice: "length (critical s2) = 6" "length (high s2) = 4"
    "length (medium s2) = 0" "length (low s2) = 2"
    by simp_all
  have "\<exists>s1 s2 sm1 sm2.
      run_analysis ''2024-01-01'' example_audit = Inr s1 \<and>
      run_analysis ''2024-01-02'' s1 = Inr s2 \<and>
      summary s1 = Some sm1 \<and> summary s2 = Some sm2 \<and>
      length (critical s1) = 3 \<and> length (critical s2) = 6 \<and>
      length (high s1) = 2 \<and> length (high s2) = 4 \<and>
      length (medium s1) = 0 \<and> length (medium s2) = 0 \<and>
      length (low s1) = 1 \<and> length (low s2) = 2 \<and>
      total_issues sm1 = 6 \<and> total_issues sm2 = 12 \<and>
      mset (critical s2) = mset (critical s1) + mset (critical s1) \<and>
      s2 \<noteq> s1"
    by (rule exI [of _ s1], rule exI [of _ s2], rule exI [of _ sm1], rule exI [of _ sm2])
      (intro conjI h second(1-4) first twice t1 t2 differs)
  with fresh show ?thesis by (rule conjI)
qed

section \<open>Duplicate titles and examples\<close>

lemma length_filter_count_list:
  "length (filter (\<lambda>r. f r = t) xs) = count_list (map f xs) t"
  by (induction xs) simp_all

lemma remaining_titles_dropna:
  "map (\<lambda>r. r ''Title 1'') (filter (\<lambda>r. r ''Title 1'' \<noteq> NaN) (rows df)) = remaining_titles df"
  by (simp add: remaining_titles_def filter_map comp_def)

lemma duplicated_remaining:
  "duplicated (remaining_titles df) = duplicated (map (\<lambda>row. row ''Title 1'') (rows df))"
  by (simp add: remaining_titles_def)

text \<open>
  Claim C3. Duplicate-title detection drops the rows with an empty title before it counts:
  no empty title is among the counted ones, the titles it takes as duplicated are exactly
  the distinct titles that occur at least twice among the remaining rows, and the count of
  the record it emits is the number of those titles, which is at least one. No record is
  emitted when no title is duplicated.
\<close>

theorem duplicate_titles_count:
  assumes "d ''page_titles'' = Some df" and "duplicate_titles_records d = Inr rs"
  shows "NaN \<notin> set (remaining_titles df) \<and>
         distinct (duplicated (remaining_titles df)) \<and>
         set (duplicated (remaining_titles df)) = {t. 2 \<le> count_list (remaining_titles df) t} \<and>
         (\<forall>t \<in> set (duplicated (remaining_titles df)).
            t \<noteq> NaN \<and> 2 \<le> length (filter (\<lambda>row. row ''Title 1'' = t) (rows df))) \<and>
         (rs = [] \<longleftrightarrow> {t. 2 \<le> count_list (remaining_titles df) t} = {}) \<and>
         (\<forall>r \<in> set rs. rs = [r] \<and> itype r = duplicate_titles \<and>
            count r = card {t. 2 \<le> count_list (remaining_titles df) t} \<and> 1 \<le> count r)"
proof -
  let ?rem = "remaining_titles df"
  let ?titles = "map (\<lambda>row. row ''Title 1'') (rows df)"
  have no_nan: "NaN \<notin> set ?rem"
    by (simp add: remaining_titles_def)
  have count_rem: "count_list ?rem t = (if t \<noteq> NaN then count_list ?titles t else 0)" for t
    by (simp add: remaining_titles_def count_list_filter)
  have dist: "distinct (duplicated ?rem)"
    by (rule distinct_duplicated)
  have set_eq: "set (duplicated ?rem) = {t. 2 \<le> count_list ?rem t}"
    by (auto simp: set_duplicated count_rem)
  have rows_count: "length (filter (\<lambda>row. row ''Title 1'' = t) (rows df)) = count_list ?titles t" for t
    by (rule length_filter_count_list)
  have each: "\<forall>t \<in> set (duplicated ?rem).
            t \<noteq> NaN \<and> 2 \<le> length (filter (\<lambda>row. row ''Title 1'' = t) (rows df))"
    by (auto simp: set_duplicated duplicated_remaining rows_count)
  have card_eq: "card {t. 2 \<le> count_list ?rem t} = length (duplicated ?rem)"
    using distinct_card [OF dist] by (simp add: set_eq)
  from assms have cases:
    "(duplicated ?rem = [] \<and> rs = []) \<or>
     (duplicated ?rem \<noteq> [] \<and> (\<exists>r. rs = [r] \<and> itype r = duplicate_titles \<and>
          count r = length (duplicated ?rem)))"
    by (auto simp: duplicate_titles_records_def and_then_eq_Inr dropna_Inr getitem_Inr
        remaining_titles_dropna Let_def made_issue_def split: if_splits)
  have empty_iff: "rs = [] \<longleftrightarrow> {t. 2 \<le> count_list ?rem t} = {}"
    using cases set_eq by (metis list.distinct(1) set_empty)
  have recs: "\<forall>r \<in> set rs. rs = [r] \<and> itype r = duplicate_titles \<and>
            count r = card {t. 2 \<le> count_list ?rem t} \<and> 1 \<le> count r"
    using cases by (auto simp: card_eq Suc_le_eq)
  from no_nan dist set_eq each empty_iff recs show ?thesis
    by blast
qed

theorem duplicate_titles_count_witness:
  "example_data ''page_titles'' = Some example_titles \<and>
   duplicate_titles_records example_data = Inr [example_duplicate_titles_issue] \<and>
   count example_duplicate_titles_issue = 1 \<and>
   examples example_duplicate_titles_issue = [Str ''/a'', Str ''/c''] \<and>
   NaN \<notin> set (remaining_titles example_titles) \<and>
   distinct (duplicated (remaining_titles example_titles)) \<and>
   set (duplicated (remaining_titles example_titles))
     = {t. 2 \<le> count_list (remaining_titles example_titles) t} \<and>
   {t. 2 \<le> count_list (remaining_titles example_titles) t} \<noteq> {} \<and>
   itype example_duplicate_titles_issue = duplicate_titles \<and>
   count example_duplicate_titles_issue
     = card {t. 2 \<le> count_list (remaining_titles example_titles) t}"
proof -
  have loaded: "example_data ''page_titles'' = Some example_titles"
    by (simp add: example_data_def)
  have fields: "count example_duplicate_titles_issue = 1"
    "examples example_duplicate_titles_issue = [Str ''/a'', Str ''/c'']"
    by (simp_all add: example_duplicate_titles_issue_def made_issue_def)
  show ?thesis
    using duplicate_titles_count [OF loaded example_duplicate_titles_records]
    by (simp add: loaded example_duplicate_titles_records fields)
qed

text \<open>
  Claim C5. Every record a check creates has a count of at least one and at most five
  examples. For the duplicate-title record the count is the number of duplicated titles and
  the examples are up to two addresses for each of the first five duplicated titles,
  concatenated and cut to five; for every other record the count is the number of matching
  rows of the source table and the examples are the addresses of the first five matching
  rows in file order.
\<close>

theorem created_records_examples:
  "\<forall>chk \<in> set [broken_links_records, redirect_chains_records, duplicate_titles_records,
                 missing_meta_descriptions_records, missing_h1_records, slow_pages_records,
                 title_length_records, description_length_records,
                 missing_alt_text_records, multiple_h1_records].
     \<forall>rs. chk d = Inr rs \<longrightarrow>
       (\<forall>r \<in> set rs.
          1 \<le> count r \<and> length (examples r) \<le> 5 \<and>
          (if itype r = duplicate_titles then sampled_title_examples d r
           else first_five_examples d r))"
proof -
  have "chk d = Inr rs \<Longrightarrow> r \<in> set rs \<Longrightarrow>
          1 \<le> count r \<and> length (examples r) \<le> 5 \<and>
          (if itype r = duplicate_titles then sampled_title_examples d r
           else first_five_examples d r)"
    if "chk \<in> set [broken_links_records, redirect_chains_records, duplicate_titles_records,
                 missing_meta_descriptions_records, missing_h1_records, slow_pages_records,
                 title_length_records, description_length_records,
                 missing_alt_text_records, multiple_h1_records]" for chk rs r
    using that
    by (auto dest!: broken_links_created redirect_chains_created duplicate_titles_created
        missing_meta_descriptions_created missing_h1_created slow_pages_created
        title_length_created description_length_created missing_alt_text_created
        multiple_h1_created simp: sound_record_def)
  then show ?thesis by blast
qed

theorem created_records_examples_witness:
  "broken_links_records example_data
     = Inr [example_broken_links_issue, example_server_errors_issue] \<and>
   duplicate_titles_records example_data = Inr [example_duplicate_titles_issue] \<and>
   1 \<le> count example_broken_links_issue \<and>
   length (examples example_broken_links_issue) \<le> 5 \<and>
   1 \<le> count example_server_errors_issue \<and>
   length (examples example_server_errors_issue) \<le> 5 \<and>
   1 \<le> count example_duplicate_titles_issue \<and>
   length (examples example_duplicate_titles_issue) \<le> 5 \<and>
   first_five_examples example_data example_broken_links_issue \<and>
   first_five_examples example_data example_server_errors_issue \<and>
   sampled_title_examples example_data example_duplicate_titles_issue"
proof -
  have types: "itype example_broken_links_issue = broken_links"
    "itype example_server_errors_issue = server_errors"
    "itype example_duplicate_titles_issue = duplicate_titles"
    by (simp_all add: example_broken_links_issue_def example_server_errors_issue_def
        example_duplicate_titles_issue_def made_issue_def)
  show ?thesis
    using created_records_examples [of example_data]
    by (simp add: example_broken_links_records example_duplicate_titles_records types)
qed

section \<open>Loading the export files\<close>






lemma give_up_cases: "give_up print e = Inr False \<or> (\<exists>m e'. print m = Some e' \<and> give_up print e = Inl e')"
  by (auto simp: give_up_def split: option.splits)






section \<open>Sheets of the spreadsheet report\<close>

lemma length_issue_data:
  "length (issue_data bucket) = sum_list (map (\<lambda>issue. length (examples issue)) bucket)"
  by (induction bucket) (simp_all add: issue_data_def)

lemma urls_issue_data: "map url_col (issue_data bucket) = concat (map examples bucket)"
  by (induction bucket) (simp_all add: issue_data_def comp_def)

lemma set_issue_data:
  "set (issue_data bucket) =
     {\<lparr>issue_type_col = title issue, url_col = example, impact_col = impact issue,
       effort_col = effort issue, priority_score_col = priority_score issue,
       recommendation_col = recommendation issue\<rparr> | issue example.
      issue \<in> set bucket \<and> example \<in> set (examples issue)}"
  by (auto simp: issue_data_def)

lemma category_sheet_cases:
  "category_sheet name bucket =
     (if issue_data bucket = [] then [] else [(name, IssueSheet (issue_data bucket))])"
  by (cases bucket) (simp_all add: category_sheet_def issue_data_def)

lemma issue_data_nonempty: "issue_data bucket \<noteq> [] \<Longrightarrow> bucket \<noteq> []"
  by (auto simp: issue_data_def)

text \<open>
  Claim C8. In the workbook, a bucket has a sheet only when it is not empty, and the rows of
  the sheet are one for each pair of an issue of the bucket and one of its examples, in
  bucket order and then example order, each repeating the title, impact, effort, priority
  score and recommendation of its issue. The number of rows is the sum of the numbers of
  examples, so that a bucket of one issue with three examples yields exactly three rows.
\<close>

theorem excel_rows_per_example:
  assumes "generate_excel_report domain s = Inr wb"
  shows "\<forall>(name, bucket) \<in> set [(''Critical'', critical s), (''High'', high s),
                                (''Medium'', medium s), (''Low'', low s)].
           (case map_of wb name of
              None \<Rightarrow> issue_data bucket = []
            | Some sheet \<Rightarrow> bucket \<noteq> [] \<and> sheet = IssueSheet (issue_data bucket)) \<and>
           length (issue_data bucket) = sum_list (map (\<lambda>issue. length (examples issue)) bucket) \<and>
           map url_col (issue_data bucket) = concat (map examples bucket) \<and>
           set (issue_data bucket) =
             {\<lparr>issue_type_col = title issue, url_col = example, impact_col = impact issue,
               effort_col = effort issue, priority_score_col = priority_score issue,
               recommendation_col = recommendation issue\<rparr> | issue example.
              issue \<in> set bucket \<and> example \<in> set (examples issue)} \<and>
           (\<forall>issue. bucket = [issue] \<and> length (examples issue) = 3
              \<longrightarrow> length (issue_data bucket) = 3)"
proof -
  from assms obtain summary_rows where wb:
    "wb = (''Summary'', SummarySheet summary_rows)
            # category_sheet ''Critical'' (critical s)
            @ category_sheet ''High'' (high s)
            @ category_sheet ''Medium'' (medium s)
            @ category_sheet ''Low'' (low s)"
    by (auto simp: generate_excel_report_def split: option.splits)
  have sheets:
    "case map_of wb ''Critical'' of None \<Rightarrow> issue_data (critical s) = []
       | Some sheet \<Rightarrow> critical s \<noteq> [] \<and> sheet = IssueSheet (issue_data (critical s))"
    "case map_of wb ''High'' of None \<Rightarrow> issue_data (high s) = []
       | Some sheet \<Rightarrow> high s \<noteq> [] \<and> sheet = IssueSheet (issue_data (high s))"
    "case map_of wb ''Medium'' of None \<Rightarrow> issue_data (medium s) = []
       | Some sheet \<Rightarrow> medium s \<noteq> [] \<and> sheet = IssueSheet (issue_data (medium s))"
    "case map_of wb ''Low'' of None \<Rightarrow> issue_data (low s) = []
       | Some sheet \<Rightarrow> low s \<noteq> [] \<and> sheet = IssueSheet (issue_data (low s))"
    by (auto simp: wb category_sheet_cases dest: issue_data_nonempty)
  have three: "length (issue_data [issue]) = 3" if "length (examples issue) = 3" for issue
    using that by (simp add: length_issue_data)
  from sheets three show ?thesis
    by (simp add: length_issue_data urls_issue_data set_issue_data)
qed

lemma example_reported_workbook:
  "\<exists>summary_rows.
     generate_excel_report ''example.com'' example_reported =
       Inr [(''Summary'', SummarySheet summary_rows),
            (''Critical'', IssueSheet (issue_data [example_three_issue]))]"
  by (simp add: generate_excel_report_def example_reported_def summarise_def init_def
      category_sheet_def issue_data_def example_three_issue_def made_issue_def)

theorem excel_rows_per_example_witness:
  "\<exists>wb. generate_excel_report ''example.com'' example_reported = Inr wb \<and>
     critical example_reported = [example_three_issue] \<and>
     length (examples example_three_issue) = 3 \<and>
     map_of wb ''Critical'' = Some (IssueSheet (issue_data [example_three_issue])) \<and>
     length (issue_data [example_three_issue]) = 3 \<and>
     map url_col (issue_data [example_three_issue]) = [Str ''/a'', Str ''/b'', Str ''/c''] \<and>
     map_of wb ''High'' = None"
proof -
  from example_reported_workbook obtain summary_rows where
    wb: "generate_excel_report ''example.com'' example_reported =
       Inr [(''Summary'', SummarySheet summary_rows),
            (''Critical'', IssueSheet (issue_data [example_three_issue]))]" ..
  have bucket: "critical example_reported = [example_three_issue]"
    by (simp add: example_reported_def init_def)
  have three: "examples example_three_issue = [Str ''/a'', Str ''/b'', Str ''/c'']"
    by (simp add: example_three_issue_def made_issue_def)
  show ?thesis
    using excel_rows_per_example [OF wb] wb
    by (simp add: bucket three)
qed

section \<open>Waiting for the crawl\<close>

lemma wait_loop_step:
  "wait_loop ci tmo el p ((r, x) # evs) =
     (if el > tmo then Some (Inr False, p)
      else if poll r = Pending then
        (if ci < 0 then Some (Inl ValueError, Suc p)
         else wait_loop ci tmo (el + x + ci) (Suc p) evs)
      else Some (outcome (poll r), Suc p))"
  by (auto simp: poll_def outcome_def get_crawl_status_def make_request_def truthy_def
      dict_get_def Let_def split: reply.splits option.splits json.splits if_splits)

declare wait_loop.simps(2) [simp del]

lemma elapsed_before_0 [simp]: "elapsed_before ci evs 0 = 0"
  by (simp add: elapsed_before_def)

lemma elapsed_before_Suc [simp]:
  "elapsed_before ci ((r, x) # evs) (Suc k) = x + ci + elapsed_before ci evs k"
  by (simp add: elapsed_before_def)

lemma wait_loop_decided:
  "k < length evs \<Longrightarrow> \<forall>i<k. poll (fst (evs ! i)) = Pending \<Longrightarrow>
   \<forall>j\<le>k. el + elapsed_before ci evs j \<le> tmo \<Longrightarrow> k = 0 \<or> 0 \<le> ci \<Longrightarrow>
   poll (fst (evs ! k)) \<noteq> Pending \<Longrightarrow>
     wait_loop ci tmo el p evs = Some (outcome (poll (fst (evs ! k))), Suc (p + k))"
proof (induction evs arbitrary: el p k)
  case Nil
  then show ?case by simp
next
  case (Cons ev evs)
  obtain r x where ev: "ev = (r, x)" by (cases ev)
  from Cons.prems(3) have now: "el \<le> tmo"
    by (auto dest: spec [of _ 0])
  show ?case
  proof (cases k)
    case 0
    with Cons.prems now show ?thesis
      by (simp add: ev wait_loop_step)
  next
    case (Suc k')
    from Cons.prems(2) Suc have head: "poll r = Pending"
      by (auto simp: ev dest: spec [of _ 0])
    from Cons.prems(4) Suc have ci: "0 \<le> ci"
      by simp
    have len: "k' < length evs"
      using Cons.prems(1) Suc by simp
    have pend: "\<forall>i<k'. poll (fst (evs ! i)) = Pending"
      using Cons.prems(2) Suc by (auto dest: spec [of _ "Suc i" for i])
    have time: "\<forall>j\<le>k'. (el + x + ci) + elapsed_before ci evs j \<le> tmo"
    proof (intro allI impI)
      fix j assume "j \<le> k'"
      then have "Suc j \<le> k" using Suc by simp
      with Cons.prems(3) have "el + elapsed_before ci (ev # evs) (Suc j) \<le> tmo"
        by blast
      then show "(el + x + ci) + elapsed_before ci evs j \<le> tmo"
        by (simp add: ev algebra_simps)
    qed
    have last: "poll (fst (evs ! k')) \<noteq> Pending"
      using Cons.prems(5) Suc by simp
    from ci have ci': "k' = 0 \<or> 0 \<le> ci" by simp
    from Cons.IH [OF len pend time ci' last, of "Suc p"] head now ci show ?thesis
      by (simp add: ev wait_loop_step Suc)
  qed
qed

lemma wait_loop_True:
  "wait_loop ci tmo el p evs = Some (Inr True, n) \<Longrightarrow>
     \<exists>k<length evs. n = Suc (p + k) \<and> poll (fst (evs ! k)) = Finished \<and>
       (\<forall>i<k. poll (fst (evs ! i)) = Pending) \<and>
       (\<forall>j\<le>k. el + elapsed_before ci evs j \<le> tmo) \<and> (k = 0 \<or> 0 \<le> ci)"
proof (induction evs arbitrary: el p)
  case Nil
  then show ?case by (simp split: if_splits)
next
  case (Cons ev evs)
  obtain r x where ev: "ev = (r, x)" by (cases ev)
  from Cons.prems have now: "el \<le> tmo"
    by (auto simp: ev wait_loop_step split: if_splits)
  show ?case
  proof (cases "poll r = Pending")
    case True
    with Cons.prems now have ci: "0 \<le> ci"
      and rest: "wait_loop ci tmo (el + x + ci) (Suc p) evs = Some (Inr True, n)"
      by (auto simp: ev wait_loop_step split: if_splits)
    from Cons.IH [OF rest] obtain k where
      k: "k < length evs" "n = Suc (Suc p + k)" "poll (fst (evs ! k)) = Finished"
        "\<forall>i<k. poll (fst (evs ! i)) = Pending"
        "\<forall>j\<le>k. (el + x + ci) + elapsed_before ci evs j \<le> tmo"
      by blast
    have pend: "poll (fst ((ev # evs) ! i)) = Pending" if "i < Suc k" for i
      using that k(4) True by (cases i) (simp_all add: ev)
    have time: "el + elapsed_before ci (ev # evs) j \<le> tmo" if "j \<le> Suc k" for j
    proof (cases j)
      case 0
      with now show ?thesis by simp
    next
      case (Suc j')
      with that k(5) have "(el + x + ci) + elapsed_before ci evs j' \<le> tmo"
        by simp
      then show ?thesis by (simp add: Suc ev algebra_simps)
    qed
    from k(1-3) pend time ci show ?thesis
      by (intro exI [of _ "Suc k"]) simp
  next
    case False
    with Cons.prems now have "poll r = Finished" "n = Suc p"
      by (cases "poll r"; simp add: ev wait_loop_step outcome_def)+
    with now show ?thesis
      by (intro exI [of _ 0]) (simp add: ev)
  qed
qed

lemma wait_loop_timeout:
  "k \<le> length evs \<Longrightarrow> \<forall>i<k. poll (fst (evs ! i)) = Pending \<Longrightarrow>
   tmo < el + elapsed_before ci evs k \<Longrightarrow> 0 \<le> ci \<Longrightarrow>
     \<exists>n. p \<le> n \<and> n \<le> p + k \<and> wait_loop ci tmo el p evs = Some (Inr False, n)"
proof (induction evs arbitrary: el p k)
  case Nil
  then show ?case by simp
next
  case (Cons ev evs)
  obtain r x where ev: "ev = (r, x)" by (cases ev)
  show ?case
  proof (cases "tmo < el")
    case True
    then show ?thesis by (auto simp: ev wait_loop_step)
  next
    case False
    with Cons.prems(3) obtain k' where k: "k = Suc k'"
      by (cases k) auto
    from Cons.prems(2) k have head: "poll r = Pending"
      by (auto simp: ev dest: spec [of _ 0])
    have len: "k' \<le> length evs"
      using Cons.prems(1) k by simp
    have pend: "\<forall>i<k'. poll (fst (evs ! i)) = Pending"
      using Cons.prems(2) k by (auto dest: spec [of _ "Suc i" for i])
    have time: "tmo < (el + x + ci) + elapsed_before ci evs k'"
      using Cons.prems(3) k by (simp add: ev algebra_simps)
    from Cons.IH [OF len pend time Cons.prems(4), of "Suc p"] obtain n where
      "Suc p \<le> n" "n \<le> Suc p + k'" "wait_loop ci tmo (el + x + ci) (Suc p) evs = Some (Inr False, n)"
      by blast
    with head False Cons.prems(4) show ?thesis
      by (auto simp: ev wait_loop_step k intro!: exI [of _ n])
  qed
qed

lemma wait_loop_no_exception:
  "0 \<le> ci \<Longrightarrow> \<forall>ev \<in> set evs. poll (fst ev) \<noteq> Malformed \<Longrightarrow>
     wait_loop ci tmo el p evs \<noteq> Some (Inl e, n)"
proof (induction evs arbitrary: el p)
  case Nil
  then show ?case by simp
next
  case (Cons ev evs)
  obtain r x where ev: "ev = (r, x)" by (cases ev)
  from Cons.prems have "poll r \<noteq> Malformed" and "\<forall>ev \<in> set evs. poll (fst ev) \<noteq> Malformed"
    by (simp_all add: ev)
  with Cons.IH Cons.prems(1) show ?case
    by (cases "poll r") (simp_all add: ev wait_loop_step outcome_def)
qed

lemma wait_loop_returns:
  "0 < ci \<Longrightarrow> \<forall>ev \<in> set evs. 0 \<le> snd ev \<Longrightarrow> tmo < el + ci * of_nat (length evs) \<Longrightarrow>
     wait_loop ci tmo el p evs \<noteq> None"
proof (induction evs arbitrary: el p)
  case Nil
  then show ?case by simp
next
  case (Cons ev evs)
  obtain r x where ev: "ev = (r, x)" by (cases ev)
  from Cons.prems(2) have x: "0 \<le> x" and rest: "\<forall>ev \<in> set evs. 0 \<le> snd ev"
    by (simp_all add: ev)
  from Cons.prems(3) x have "tmo < (el + x + ci) + ci * of_nat (length evs)"
    by (simp add: algebra_simps)
  from Cons.IH [OF Cons.prems(1) rest this] Cons.prems(1) show ?case
    by (simp add: ev wait_loop_step)
qed

lemma wait_loop_negative_interval:
  "ci < 0 \<Longrightarrow> el \<le> tmo \<Longrightarrow> poll r = Pending \<Longrightarrow>
     wait_loop ci tmo el p ((r, x) # evs) = Some (Inl ValueError, Suc p)"
  by (simp add: wait_loop_step)

lemma poll_status_reply:
  "poll (fst (status_reply ''STARTED'')) = Pending"
  "poll (fst (status_reply ''FINISHED'')) = Finished"
  "poll (fst (status_reply ''STOPPED'')) = Failed"
  by (simp_all add: status_reply_def poll_def)

lemma snd_status_reply [simp]: "snd (status_reply st) = 0"
  by (simp add: status_reply_def)

lemma example_crawl_result:
  assumes "startup \<le> 3580"
  shows "wait_for_crawl_completion 10 3600 startup example_crawl = Some (Inr True, 3)"
proof -
  have "wait_loop 10 3600 startup 0 example_crawl
          = Some (outcome (poll (fst (example_crawl ! 2))), Suc (0 + 2))"
  proof (rule wait_loop_decided)
    show "\<forall>i<2. poll (fst (example_crawl ! i)) = Pending"
      by (simp add: example_crawl_def poll_status_reply less_Suc_eq numeral_2_eq_2)
    show "\<forall>j\<le>2. startup + elapsed_before 10 example_crawl j \<le> 3600"
      using assms by (simp add: example_crawl_def elapsed_before_def le_Suc_eq numeral_2_eq_2)
  qed (simp_all add: example_crawl_def poll_status_reply)
  then show ?thesis
    by (simp add: wait_for_crawl_completion_def example_crawl_def poll_status_reply outcome_def)
qed

lemma wait_True_iff:
  "wait_for_crawl_completion ci tmo startup events = Some (Inr True, n) \<longleftrightarrow>
     0 < n \<and> n \<le> length events \<and> poll (fst (events ! (n - 1))) = Finished \<and>
     (\<forall>i<n - 1. poll (fst (events ! i)) = Pending) \<and>
     (\<forall>j<n. startup + elapsed_before ci events j \<le> tmo) \<and> (n = 1 \<or> 0 \<le> ci)"
  (is "?lhs \<longleftrightarrow> ?rhs")
proof
  assume ?lhs
  then have "wait_loop ci tmo startup 0 events = Some (Inr True, n)"
    by (simp add: wait_for_crawl_completion_def)
  from wait_loop_True [OF this] obtain k where
    k: "k < length events" "n = Suc (0 + k)" "poll (fst (events ! k)) = Finished"
      "\<forall>i<k. poll (fst (events ! i)) = Pending"
      "\<forall>j\<le>k. startup + elapsed_before ci events j \<le> tmo" "k = 0 \<or> 0 \<le> ci"
    by blast
  then show ?rhs
    by (auto simp: less_Suc_eq_le)
next
  assume r: ?rhs
  then obtain k where n: "n = Suc k"
    by (cases n) auto
  from r n have "wait_loop ci tmo startup 0 events
      = Some (outcome (poll (fst (events ! k))), Suc (0 + k))"
    by (intro wait_loop_decided) (auto simp: less_Suc_eq_le)
  with r n show ?lhs
    by (simp add: wait_for_crawl_completion_def outcome_def)
qed

text \<open>
  Claim C6, as stated, fails where it says that no exception reaches the caller: a response
  with status code 200 whose body is the JSON array \<open>[1]\<close> is a true value without a \<open>get\<close>
  method, and the first poll raises \<open>AttributeError\<close>.
\<close>

theorem wait_for_crawl_completion_raises:
  "wait_for_crawl_completion 10 3600 (1 / 1000) example_array_reply
     = Some (Inl AttributeError, 1)"
  by (simp add: wait_for_crawl_completion_def example_array_reply_def wait_loop.simps
      get_crawl_status_def make_request_def truthy_def)

text \<open>
  Claim C6, amended. \<open>wait_for_crawl_completion\<close> returns \<open>True\<close> exactly when a poll reports
  \<open>FINISHED\<close>: when that poll is made, which is when the polls before it were pending, each
  poll up to it began within the timeout, and the interval slept between polls is not
  negative. When the polls before the \<open>k\<close>-th are pending and made in this way, the \<open>k\<close>-th poll
  decides: \<open>True\<close> for \<open>FINISHED\<close>, \<open>False\<close> for \<open>FAILED\<close>, \<open>STOPPED\<close>, \<open>INTERRUPTED\<close> or a missing
  status (transport error, response other than 200, no JSON, false body), after exactly
  \<open>k + 1\<close> polls. When the timeout elapses while the polls are pending the result is \<open>False\<close>.
  No exception reaches the caller provided the interval is not negative and no reply
  carries a true body that is not a JSON object. With a positive interval the call returns
  once enough time has passed. For the statuses \<open>STARTED\<close>, \<open>STARTED\<close>, \<open>FINISHED\<close> at the default
  interval and timeout it returns \<open>True\<close> after exactly three polls.
\<close>

theorem wait_for_crawl_completion_outcomes:
  "(\<forall>n. wait_for_crawl_completion ci tmo startup events = Some (Inr True, n) \<longleftrightarrow>
      0 < n \<and> n \<le> length events \<and> poll (fst (events ! (n - 1))) = Finished \<and>
      (\<forall>i<n - 1. poll (fst (events ! i)) = Pending) \<and>
      (\<forall>j<n. startup + elapsed_before ci events j \<le> tmo) \<and> (n = 1 \<or> 0 \<le> ci)) \<and>
   (\<forall>k<length events.
      (\<forall>i<k. poll (fst (events ! i)) = Pending) \<and>
      (\<forall>j\<le>k. startup + elapsed_before ci events j \<le> tmo) \<and> (k = 0 \<or> 0 \<le> ci) \<and>
      poll (fst (events ! k)) \<in> {Finished, Failed, NoStatus} \<longrightarrow>
      wait_for_crawl_completion ci tmo startup events
        = Some (Inr (poll (fst (events ! k)) = Finished), Suc k)) \<and>
   (\<forall>k\<le>length events.
      (\<forall>i<k. poll (fst (events ! i)) = Pending) \<and>
      tmo < startup + elapsed_before ci events k \<and> 0 \<le> ci \<longrightarrow>
      (\<exists>n\<le>k. wait_for_crawl_completion ci tmo startup events = Some (Inr False, n))) \<and>
   (0 \<le> ci \<and> (\<forall>ev \<in> set events. poll (fst ev) \<noteq> Malformed) \<longrightarrow>
      (\<forall>e n. wait_for_crawl_completion ci tmo startup events \<noteq> Some (Inl e, n))) \<and>
   (0 < ci \<and> (\<forall>ev \<in> set events. 0 \<le> snd ev) \<and>
    tmo < startup + ci * of_nat (length events) \<longrightarrow>
      wait_for_crawl_completion ci tmo startup events \<noteq> None) \<and>
   (startup \<le> 3580 \<longrightarrow>
      wait_for_crawl_completion 10 3600 startup example_crawl = Some (Inr True, 3))"
proof -
  have c1: "\<forall>n. wait_for_crawl_completion ci tmo startup events = Some (Inr True, n) \<longleftrightarrow>
      0 < n \<and> n \<le> length events \<and> poll (fst (events ! (n - 1))) = Finished \<and>
      (\<forall>i<n - 1. poll (fst (events ! i)) = Pending) \<and>
      (\<forall>j<n. startup + elapsed_before ci events j \<le> tmo) \<and> (n = 1 \<or> 0 \<le> ci)"
    by (intro allI wait_True_iff)
  have c2: "\<forall>k<length events.
      (\<forall>i<k. poll (fst (events ! i)) = Pending) \<and>
      (\<forall>j\<le>k. startup + elapsed_before ci events j \<le> tmo) \<and> (k = 0 \<or> 0 \<le> ci) \<and>
      poll (fst (events ! k)) \<in> {Finished, Failed, NoStatus} \<longrightarrow>
      wait_for_crawl_completion ci tmo startup events
        = Some (Inr (poll (fst (events ! k)) = Finished), Suc k)"
  proof (intro allI impI)
    fix k
    assume k: "k < length events"
      and hyp: "(\<forall>i<k. poll (fst (events ! i)) = Pending) \<and>
        (\<forall>j\<le>k. startup + elapsed_before ci events j \<le> tmo) \<and> (k = 0 \<or> 0 \<le> ci) \<and>
        poll (fst (events ! k)) \<in> {Finished, Failed, NoStatus}"
    then have "wait_loop ci tmo startup 0 events
        = Some (outcome (poll (fst (events ! k))), Suc (0 + k))"
      by (intro wait_loop_decided) auto
    moreover from hyp have
      "outcome (poll (fst (events ! k))) = Inr (poll (fst (events ! k)) = Finished)"
      by (auto simp: outcome_def)
    ultimately show "wait_for_crawl_completion ci tmo startup events
          = Some (Inr (poll (fst (events ! k)) = Finished), Suc k)"
      by (simp add: wait_for_crawl_completion_def)
  qed
  have c3: "\<forall>k\<le>length events.
      (\<forall>i<k. poll (fst (events ! i)) = Pending) \<and>
      tmo < startup + elapsed_before ci events k \<and> 0 \<le> ci \<longrightarrow>
      (\<exists>n\<le>k. wait_for_crawl_completion ci tmo startup events = Some (Inr False, n))"
  proof (intro allI impI)
    fix k
    assume "k \<le> length events"
      and "(\<forall>i<k. poll (fst (events ! i)) = Pending) \<and>
        tmo < startup + elapsed_before ci events k \<and> 0 \<le> ci"
    then have "\<exists>n. 0 \<le> n \<and> n \<le> 0 + k \<and>
        wait_loop ci tmo startup 0 events = Some (Inr False, n)"
      by (intro wait_loop_timeout) auto
    then show "\<exists>n\<le>k. wait_for_crawl_completion ci tmo startup events = Some (Inr False, n)"
      by (auto simp: wait_for_crawl_completion_def)
  qed
  have c4: "0 \<le> ci \<and> (\<forall>ev \<in> set events. poll (fst ev) \<noteq> Malformed) \<longrightarrow>
      (\<forall>e n. wait_for_crawl_completion ci tmo startup events \<noteq> Some (Inl e, n))"
    unfolding wait_for_crawl_completion_def
    by (intro impI allI wait_loop_no_exception) auto
  have c5: "0 < ci \<and> (\<forall>ev \<in> set events. 0 \<le> snd ev) \<and>
    tmo < startup + ci * of_nat (length events) \<longrightarrow>
      wait_for_crawl_completion ci tmo startup events \<noteq> None"
    unfolding wait_for_crawl_completion_def
    by (intro impI wait_loop_returns) auto
  have c6: "startup \<le> 3580 \<longrightarrow>
      wait_for_crawl_completion 10 3600 startup example_crawl = Some (Inr True, 3)"
    by (intro impI example_crawl_result)
  from c1 c2 c3 c4 c5 c6 show ?thesis
    by (intro conjI)
qed

theorem wait_for_crawl_completion_outcomes_witness:
  "wait_for_crawl_completion 10 3600 (1 / 1000) example_failed_crawl = Some (Inr False, 2) \<and>
   (\<exists>n\<le>2. wait_for_crawl_completion 10 15 (1 / 1000) example_stalled_crawl
              = Some (Inr False, n)) \<and>
   (\<exists>n\<le>0. wait_for_crawl_completion 10 0 (1 / 1000) example_crawl = Some (Inr False, n)) \<and>
   wait_for_crawl_completion 10 15 (1 / 1000) example_stalled_crawl \<noteq> None \<and>
   wait_for_crawl_completion 10 15 (1 / 1000) example_stalled_crawl
     \<noteq> Some (Inl AttributeError, 2) \<and>
   wait_for_crawl_completion 10 3600 (1 / 1000) example_crawl = Some (Inr True, 3) \<and>
   poll (fst (example_crawl ! (3 - 1))) = Finished"
proof -
  note failed = wait_for_crawl_completion_outcomes [of 10 3600 "1 / 1000" example_failed_crawl]
  note stalled = wait_for_crawl_completion_outcomes [of 10 15 "1 / 1000" example_stalled_crawl]
  note late = wait_for_crawl_completion_outcomes [of 10 0 "1 / 1000" example_crawl]
  note crawl = wait_for_crawl_completion_outcomes [of 10 3600 "1 / 1000" example_crawl]
  have "wait_for_crawl_completion 10 3600 (1 / 1000) example_failed_crawl
          = Some (Inr (poll (fst (example_failed_crawl ! 1)) = Finished), Suc 1)"
  proof (rule failed [THEN conjunct2, THEN conjunct1, rule_format])
    show "1 < length example_failed_crawl"
      by (simp add: example_failed_crawl_def)
    show "(\<forall>i<1. poll (fst (example_failed_crawl ! i)) = Pending) \<and>
          (\<forall>j\<le>1. 1 / 1000 + elapsed_before 10 example_failed_crawl j \<le> 3600) \<and>
          (1 = (0::nat) \<or> (0::rat) \<le> 10) \<and>
          poll (fst (example_failed_crawl ! 1)) \<in> {Finished, Failed, NoStatus}"
      by (simp add: example_failed_crawl_def poll_status_reply elapsed_before_def le_Suc_eq)
  qed
  then have a: "wait_for_crawl_completion 10 3600 (1 / 1000) example_failed_crawl
                  = Some (Inr False, 2)"
    by (simp add: example_failed_crawl_def poll_status_reply)
  have b: "\<exists>n\<le>2. wait_for_crawl_completion 10 15 (1 / 1000) example_stalled_crawl
                    = Some (Inr False, n)"
  proof (rule stalled [THEN conjunct2, THEN conjunct2, THEN conjunct1, rule_format])
    show "2 \<le> length example_stalled_crawl"
      by (simp add: example_stalled_crawl_def)
    show "(\<forall>i<2. poll (fst (example_stalled_crawl ! i)) = Pending) \<and>
          15 < 1 / 1000 + elapsed_before 10 example_stalled_crawl 2 \<and> (0::rat) \<le> 10"
      by (simp add: example_stalled_crawl_def poll_status_reply elapsed_before_def
          less_Suc_eq numeral_2_eq_2)
  qed
  have b0: "\<exists>n\<le>0. wait_for_crawl_completion 10 0 (1 / 1000) example_crawl = Some (Inr False, n)"
  proof (rule late [THEN conjunct2, THEN conjunct2, THEN conjunct1, rule_format])
    show "0 \<le> length example_crawl"
      by simp
    show "(\<forall>i<0. poll (fst (example_crawl ! i)) = Pending) \<and>
          0 < 1 / 1000 + elapsed_before 10 example_crawl 0 \<and> (0::rat) \<le> 10"
      by simp
  qed
  have c: "wait_for_crawl_completion 10 15 (1 / 1000) example_stalled_crawl \<noteq> None"
  proof (rule stalled [THEN conjunct2, THEN conjunct2, THEN conjunct2, THEN conjunct2,
        THEN conjunct1, rule_format])
    show "0 < (10::rat) \<and> (\<forall>ev \<in> set example_stalled_crawl. 0 \<le> snd ev) \<and>
          (15::rat) < 1 / 1000 + 10 * of_nat (length example_stalled_crawl)"
      by (simp add: example_stalled_crawl_def)
  qed
  have d: "wait_for_crawl_completion 10 15 (1 / 1000) example_stalled_crawl
             \<noteq> Some (Inl AttributeError, 2)"
  proof (rule stalled [THEN conjunct2, THEN conjunct2, THEN conjunct2, THEN conjunct1,
        THEN mp, THEN spec, THEN spec])
    show "(0::rat) \<le> 10 \<and> (\<forall>ev \<in> set example_stalled_crawl. poll (fst ev) \<noteq> Malformed)"
      by (simp add: example_stalled_crawl_def poll_status_reply)
  qed
  have e: "wait_for_crawl_completion 10 3600 (1 / 1000) example_crawl = Some (Inr True, 3)"
    by (rule crawl [THEN conjunct2, THEN conjunct2, THEN conjunct2, THEN conjunct2,
          THEN conjunct2, THEN mp]) simp
  have f: "poll (fst (example_crawl ! (3 - 1))) = Finished"
    using crawl [THEN conjunct1, THEN spec, of 3, THEN iffD1, OF e]
    by (rule conjunct2 [THEN conjunct2, THEN conjunct1])
  show ?thesis
    by (rule conjI [OF a conjI [OF b conjI [OF b0 conjI [OF c conjI [OF d conjI [OF e f]]]]]])
qed

end
